theory Spec2Isabelle
  imports Main "HOL-Library.Multiset" "HOL-Library.Sublist"
begin

section \<open>Python values, exceptions and the built-ins the script calls\<close>

text \<open>
  The script \<^verbatim>\<open>seller.py\<close> works on dictionaries read from a spreadsheet and from JSON
  answers, so a cell is not always text. A value is \<^verbatim>\<open>None\<close> (also what \<^verbatim>\<open>dict.get\<close>
  gives for a missing key), a \<^verbatim>\<open>str\<close> or an \<^verbatim>\<open>int\<close>. A \<^verbatim>\<open>str\<close> is a list of code
  points below 256; floating-point and Boolean values are outside the model. On these
  values Python's \<^verbatim>\<open>==\<close> is structural equality.
\<close>

datatype pyval = PyNone | PyStr string | PyInt int

text \<open>
  The exceptions that matter to the script: the two classes of \<^verbatim>\<open>requests.exceptions\<close>
  that \<^verbatim>\<open>main\<close> names in its handlers (\<^verbatim>\<open>ConnectionError\<close> carries its details, which
  the handler prints), the built-in ones the script's own expressions raise, the error of
  \<^verbatim>\<open>environs\<close> for a missing variable, and any other subclass of \<^verbatim>\<open>Exception\<close>
  (an HTTP error status, a damaged archive, a missing file, ...), tagged by its text.
  What is not an \<^verbatim>\<open>Exception\<close> (a keyboard interrupt, an exit of the interpreter) is raised
  by none of the steps and is not modelled.
\<close>

datatype exn =
    ReadTimeout
  | ConnectionError string
  | ValueError
  | TypeError
  | AttributeError
  | EnvError
  | OtherException string

definition is_digit :: "char \<Rightarrow> bool" where
  "is_digit c = (c \<in> set ''0123456789'')"

definition digit_val :: "char \<Rightarrow> nat" where
  "digit_val c = of_char c - 48"

definition digit_char :: "nat \<Rightarrow> char" where
  "digit_char d = char_of (48 + d)"

text \<open>\<^verbatim>\<open>str(n)\<close> for a natural number: its decimal digits, most significant first.\<close>

function str_nat :: "nat \<Rightarrow> string" where
  "str_nat n = (if n < 10 then [digit_char n] else str_nat (n div 10) @ [digit_char (n mod 10)])"
  by pat_completeness auto
termination
  by (relation "measure id") auto

text \<open>\<^verbatim>\<open>str(x)\<close>.\<close>

fun py_str :: "pyval \<Rightarrow> string" where
  "py_str PyNone = ''None''"
| "py_str (PyStr s) = s"
| "py_str (PyInt i) = (if i < 0 then CHR ''-'' # str_nat (nat (- i)) else str_nat (nat i))"

text \<open>
  \<^verbatim>\<open>int(x)\<close>. For a \<^verbatim>\<open>str\<close>: white space is stripped at both ends, one sign may follow,
  then decimal digits, where a single underscore may stand between two digits; anything
  else raises \<^verbatim>\<open>ValueError\<close>. The white space \<^verbatim>\<open>int\<close> strips is the tab, the line feed,
  the vertical tab, the form feed, the carriage return and the space (9 to 13 and 32),
  and the two non-ASCII spaces below 256 (133 and 160); the separators 28 to 31, which
  \<^verbatim>\<open>str.isspace\<close> accepts, are not stripped and make the text unreadable. A text with more
  than 4300 digits (leading zeros counted, underscores not) raises \<^verbatim>\<open>ValueError\<close> too:
  this is the interpreter's default limit for the conversion. \<^verbatim>\<open>int(None)\<close> raises
  \<^verbatim>\<open>TypeError\<close>. An \<^verbatim>\<open>int\<close> cell is a number of the spreadsheet, which has far fewer
  digits, so \<^verbatim>\<open>str\<close> of it never meets that limit.
\<close>

definition py_isspace :: "char \<Rightarrow> bool" where
  "py_isspace c = (of_char c \<in> {9, 10, 11, 12, 13, 32, 133, 160 :: nat})"

definition py_strip :: "string \<Rightarrow> string" where
  "py_strip s = rev (dropWhile py_isspace (rev (dropWhile py_isspace s)))"

fun digits_val :: "nat \<Rightarrow> string \<Rightarrow> nat option" where
  "digits_val acc [] = Some acc"
| "digits_val acc [c] = (if is_digit c then Some (10 * acc + digit_val c) else None)"
| "digits_val acc (c # d # cs) =
     (if is_digit c then digits_val (10 * acc + digit_val c) (d # cs)
      else if c = CHR ''_'' \<and> is_digit d then digits_val (10 * acc + digit_val d) cs
      else None)"

definition unsigned_val :: "string \<Rightarrow> nat option" where
  "unsigned_val s = (case s of [] \<Rightarrow> None
     | c # cs \<Rightarrow> if is_digit c then digits_val (digit_val c) cs else None)"

definition int_of_str :: "string \<Rightarrow> exn + int" where
  "int_of_str s =
     (let t = py_strip s;
          neg = (case t of [] \<Rightarrow> False | c # _ \<Rightarrow> c = CHR ''-'');
          u = (case t of [] \<Rightarrow> [] | c # cs \<Rightarrow> if c = CHR ''-'' \<or> c = CHR ''+'' then cs else t)
      in case unsigned_val u of
           None \<Rightarrow> Inl ValueError
         | Some v \<Rightarrow>
             if 4300 < length (filter is_digit u) then Inl ValueError
             else Inr (if neg then - int v else int v))"

fun py_int :: "pyval \<Rightarrow> exn + int" where
  "py_int PyNone = Inl TypeError"
| "py_int (PyInt i) = Inr i"
| "py_int (PyStr s) = int_of_str s"

section \<open>The transformer: price_conversion and divide\<close>

text \<open>\<^verbatim>\<open>s.split(sep)\<close> for a separator of one character: never an empty list.\<close>

fun py_split :: "char \<Rightarrow> string \<Rightarrow> string list" where
  "py_split sep [] = [[]]"
| "py_split sep (c # cs) =
     (if c = sep then [] # py_split sep cs
      else (case py_split sep cs of [] \<Rightarrow> [[c]] | p # ps \<Rightarrow> (c # p) # ps))"

text \<open>\<^verbatim>\<open>re.sub("[^0-9]", "", s)\<close>: every character that is not an ASCII digit is deleted.\<close>

definition re_sub_non_digits :: "string \<Rightarrow> string" where
  "re_sub_non_digits s = filter is_digit s"

text \<open>
  \<^verbatim>\<open>price_conversion(price)\<close> is \<^verbatim>\<open>re.sub("[^0-9]", "", price.split(".")[0])\<close>. A value
  that is not a \<^verbatim>\<open>str\<close> has no \<^verbatim>\<open>split\<close>: \<^verbatim>\<open>AttributeError\<close>.
\<close>

fun price_conversion :: "pyval \<Rightarrow> exn + string" where
  "price_conversion (PyStr price) =
     (case py_split (CHR ''.'') price of
        [] \<Rightarrow> Inl (OtherException ''IndexError'')
      | p # _ \<Rightarrow> Inr (re_sub_non_digits p))"
| "price_conversion _ = Inl AttributeError"

text \<open>
  \<^verbatim>\<open>divide(lst, n)\<close> is a generator: \<^verbatim>\<open>for i in range(0, len(lst), n): yield lst[i : i + n]\<close>.
  The model \<open>divide_list\<close> is \<^verbatim>\<open>list(divide(lst, n))\<close>, which every caller takes. \<^verbatim>\<open>divide_from\<close> is the
  loop from index \<open>i\<close> on, for a positive step; a slice is cut at the end of the list.
  \<^verbatim>\<open>range\<close> raises \<^verbatim>\<open>ValueError\<close> for the step 0 and is empty for a negative step.
\<close>

function divide_from :: "'a list \<Rightarrow> nat \<Rightarrow> nat \<Rightarrow> 'a list list" where
  "divide_from lst n i =
     (if 0 < n \<and> i < length lst then take n (drop i lst) # divide_from lst n (i + n) else [])"
  by pat_completeness auto
termination
  by (relation "measure (\<lambda>(lst, n, i). length lst - i)") auto

definition divide_list :: "'a list \<Rightarrow> int \<Rightarrow> exn + 'a list list" where
  "divide_list lst n =
     (if n = 0 then Inl ValueError
      else if n < 0 then Inr []
      else Inr (divide_from lst (nat n) 0))"

section \<open>Records, stock and price updates, and the store of list objects\<close>

text \<open>
  One row of the spreadsheet is a dictionary; the script reads three of its keys with
  \<^verbatim>\<open>watch.get(...)\<close>: the article code (\<open>kod\<close>), the quantity (\<open>kolichestvo\<close>) and the
  price (\<open>tsena\<close>). A missing key reads as \<^verbatim>\<open>None\<close>.
\<close>

record watch =
  kod :: pyval
  kolichestvo :: pyval
  tsena :: pyval

text \<open>The dictionaries the script builds: \<^verbatim>\<open>{"offer_id": ..., "stock": ...}\<close> and the price update.\<close>

record stock_item =
  s_offer_id :: pyval
  stock :: int

record price_item =
  auto_action_enabled :: string
  currency_code :: string
  p_offer_id :: pyval
  old_price :: string
  price :: string

text \<open>
  Python passes a list by reference, and \<^verbatim>\<open>create_stocks\<close> calls \<^verbatim>\<open>offer_ids.remove\<close> on
  the list it is given. A list object therefore lives in a store, and a function that takes
  a list takes its reference.
\<close>

type_synonym ref = nat
type_synonym heap = "ref \<Rightarrow> pyval list"

section \<open>create_stocks and create_prices\<close>

text \<open>
  The first loop of \<^verbatim>\<open>create_stocks\<close>, over \<^verbatim>\<open>watch_remnants\<close>; \<open>stocks\<close> is the list built
  so far. \<^verbatim>\<open>int(...)\<close> may raise, which ends the call with the store as it is then.
\<close>

fun stocks_loop :: "watch list \<Rightarrow> ref \<Rightarrow> heap \<Rightarrow> stock_item list \<Rightarrow> heap \<times> (exn + stock_item list)" where
  "stocks_loop [] offer_ids h stocks = (h, Inr stocks)"
| "stocks_loop (w # rest) offer_ids h stocks =
     (if PyStr (py_str (kod w)) \<in> set (h offer_ids) then
        (let count = py_str (kolichestvo w) in
         case (if count = ''>10'' then Inr 100
               else if count = ''1'' then Inr 0
               else py_int (kolichestvo w)) of
           Inl e \<Rightarrow> (h, Inl e)
         | Inr n \<Rightarrow>
             stocks_loop rest offer_ids
               (h(offer_ids := remove1 (PyStr (py_str (kod w))) (h offer_ids)))
               (stocks @ [\<lparr>s_offer_id = PyStr (py_str (kod w)), stock = n\<rparr>]))
      else stocks_loop rest offer_ids h stocks)"

text \<open>
  \<^verbatim>\<open>create_stocks(watch_remnants, offer_ids)\<close>: the first loop, then one entry with stock 0
  for every element still in the list. The result comes with the store after the call.
\<close>

definition create_stocks :: "heap \<Rightarrow> watch list \<Rightarrow> ref \<Rightarrow> heap \<times> (exn + stock_item list)" where
  "create_stocks h watch_remnants offer_ids =
     (case stocks_loop watch_remnants offer_ids h [] of
        (h', Inl e) \<Rightarrow> (h', Inl e)
      | (h', Inr stocks) \<Rightarrow>
          (h', Inr (foldl (\<lambda>stocks offer_id. stocks @ [\<lparr>s_offer_id = offer_id, stock = 0\<rparr>])
                     stocks (h' offer_ids))))"

text \<open>The loop of \<^verbatim>\<open>create_prices\<close>; it only reads the list.\<close>

fun prices_loop :: "watch list \<Rightarrow> ref \<Rightarrow> heap \<Rightarrow> price_item list \<Rightarrow> exn + price_item list" where
  "prices_loop [] offer_ids h prices = Inr prices"
| "prices_loop (w # rest) offer_ids h prices =
     (if PyStr (py_str (kod w)) \<in> set (h offer_ids) then
        (case price_conversion (tsena w) of
           Inl e \<Rightarrow> Inl e
         | Inr p \<Rightarrow>
             prices_loop rest offer_ids h
               (prices @ [\<lparr>auto_action_enabled = ''UNKNOWN'', currency_code = ''RUB'',
                           p_offer_id = PyStr (py_str (kod w)), old_price = ''0'', price = p\<rparr>]))
      else prices_loop rest offer_ids h prices)"

definition create_prices :: "heap \<Rightarrow> watch list \<Rightarrow> ref \<Rightarrow> exn + price_item list" where
  "create_prices h watch_remnants offer_ids = prices_loop watch_remnants offer_ids h []"

section \<open>The marketplace client and the top-level run\<close>

text \<open>
  What the script does to the outside world, in order: a request for a page of products
  (with the cursor \<^verbatim>\<open>last_id\<close> it sends), the download of the spreadsheet, an upload of a
  batch of stocks or of prices, and a line printed by a handler of \<^verbatim>\<open>main\<close>.
\<close>

datatype notice = TimeoutNotice | ConnectionNotice string | GenericNotice exn

datatype event =
    ListProducts pyval
  | DownloadStock
  | UpdateStocks "stock_item list"
  | UpdatePrice "price_item list"
  | Print notice

text \<open>
  A product of the catalogue is read with \<^verbatim>\<open>product.get("offer_id")\<close>. The \<^verbatim>\<open>"result"\<close>
  of an answer is read with \<^verbatim>\<open>get("items")\<close>, \<^verbatim>\<open>get("total")\<close> and \<^verbatim>\<open>get("last_id")\<close>;
  \<open>items\<close> is \<open>None\<close> when the key is missing.
\<close>

record product =
  offer_id :: pyval

record page =
  items :: "product list option"
  total' :: pyval
  last_id :: pyval

text \<open>
  The world a run meets. The two credentials are read from the environment and sent
  unchanged with every request. \<open>product_list_api k c\<close> is what \<^verbatim>\<open>get_product_list\<close> does
  on its \<open>k\<close>-th call with cursor \<open>c\<close>: it raises, or returns the \<^verbatim>\<open>"result"\<close> of the answer
  (\<open>None\<close> when the answer has none). \<open>update_stocks_api k b\<close> and \<open>update_price_api k b\<close>
  say whether the \<open>k\<close>-th upload, of batch \<open>b\<close>, raises.
\<close>

record world =
  seller_token_env :: "string option"
  client_id_env :: "string option"
  product_list_api :: "nat \<Rightarrow> pyval \<Rightarrow> exn + page option"
  download_stock_result :: "exn + watch list"
  update_stocks_api :: "nat \<Rightarrow> stock_item list \<Rightarrow> exn option"
  update_price_api :: "nat \<Rightarrow> price_item list \<Rightarrow> exn option"

text \<open>
  The \<^verbatim>\<open>while True\<close> loop of \<^verbatim>\<open>get_offer_ids\<close>, from its \<open>k\<close>-th request on. It may run
  forever: the value \<open>None\<close> is a call that never returns.
\<close>

partial_function (option) offer_ids_loop ::
  "(nat \<Rightarrow> pyval \<Rightarrow> exn + page option) \<Rightarrow> nat \<Rightarrow> pyval \<Rightarrow> product list \<Rightarrow> event list
   \<Rightarrow> (event list \<times> (exn + product list)) option" where
  "offer_ids_loop api k cursor product_list evs =
     (case api k cursor of
        Inl e \<Rightarrow> Some (evs @ [ListProducts cursor], Inl e)
      | Inr None \<Rightarrow> Some (evs @ [ListProducts cursor], Inl AttributeError)
      | Inr (Some some_prod) \<Rightarrow>
          (case items some_prod of
             None \<Rightarrow> Some (evs @ [ListProducts cursor], Inl TypeError)
           | Some its \<Rightarrow>
               if total' some_prod = PyInt (int (length (product_list @ its)))
               then Some (evs @ [ListProducts cursor], Inr (product_list @ its))
               else offer_ids_loop api (Suc k) (last_id some_prod) (product_list @ its)
                      (evs @ [ListProducts cursor])))"

definition get_offer_ids ::
  "(nat \<Rightarrow> pyval \<Rightarrow> exn + page option) \<Rightarrow> (event list \<times> (exn + pyval list)) option" where
  "get_offer_ids api =
     (case offer_ids_loop api 0 (PyStr []) [] [] of
        None \<Rightarrow> None
      | Some (evs, Inl e) \<Rightarrow> Some (evs, Inl e)
      | Some (evs, Inr product_list) \<Rightarrow> Some (evs, Inr (map offer_id product_list)))"

text \<open>
  \<^verbatim>\<open>for some in list(divide(...)): update(some, ...)\<close>: the batches are sent in order, and
  the first upload that raises ends the loop.
\<close>

fun update_loop :: "(nat \<Rightarrow> 'a \<Rightarrow> exn option) \<Rightarrow> ('a \<Rightarrow> event) \<Rightarrow> nat \<Rightarrow> 'a list \<Rightarrow> event list \<times> exn option" where
  "update_loop api ev k [] = ([], None)"
| "update_loop api ev k (b # bs) =
     (case api k b of
        Some e \<Rightarrow> ([ev b], Some e)
      | None \<Rightarrow> (case update_loop api ev (Suc k) bs of (evs, r) \<Rightarrow> (ev b # evs, r)))"

text \<open>
  The body of the \<^verbatim>\<open>try\<close> of \<^verbatim>\<open>main\<close>: the events so far and the exception that ended
  it, if one did. The list \<^verbatim>\<open>offer_ids\<close> is the one list object of the run that is written
  to; it is cell 0 of the store.
\<close>

definition main_try :: "world \<Rightarrow> (event list \<times> exn option) option" where
  "main_try w =
     (case get_offer_ids (product_list_api w) of
        None \<Rightarrow> None
      | Some (evs1, Inl e) \<Rightarrow> Some (evs1, Some e)
      | Some (evs1, Inr ids) \<Rightarrow>
          Some (let offer_ids = 0; h = (\<lambda>_. [])(offer_ids := ids) in
            case download_stock_result w of
              Inl e \<Rightarrow> (evs1 @ [DownloadStock], Some e)
            | Inr watch_remnants \<Rightarrow>
               (case create_stocks h watch_remnants offer_ids of
                  (h1, Inl e) \<Rightarrow> (evs1 @ [DownloadStock], Some e)
                | (h1, Inr stocks) \<Rightarrow>
                   (case divide_list stocks 100 of
                      Inl e \<Rightarrow> (evs1 @ [DownloadStock], Some e)
                    | Inr chunks \<Rightarrow>
                       (case update_loop (update_stocks_api w) UpdateStocks 0 chunks of
                          (evs2, Some e) \<Rightarrow> (evs1 @ [DownloadStock] @ evs2, Some e)
                        | (evs2, None) \<Rightarrow>
                           (case create_prices h1 watch_remnants offer_ids of
                              Inl e \<Rightarrow> (evs1 @ [DownloadStock] @ evs2, Some e)
                            | Inr prices \<Rightarrow>
                               (case divide_list prices 900 of
                                  Inl e \<Rightarrow> (evs1 @ [DownloadStock] @ evs2, Some e)
                                | Inr pchunks \<Rightarrow>
                                   (case update_loop (update_price_api w) UpdatePrice 0 pchunks of
                                      (evs3, r) \<Rightarrow> (evs1 @ [DownloadStock] @ evs2 @ evs3, r)))))))))"

text \<open>
  The three \<^verbatim>\<open>except\<close> clauses of \<^verbatim>\<open>main\<close>, tried in order: what is printed for an
  exception raised in the \<^verbatim>\<open>try\<close>.
\<close>

fun handler :: "exn \<Rightarrow> notice" where
  "handler ReadTimeout = TimeoutNotice"
| "handler (ConnectionError details) = ConnectionNotice details"
| "handler e = GenericNotice e"

text \<open>
  A finished run: its events, and the exception that left \<^verbatim>\<open>main\<close>, if one did.
  \<^verbatim>\<open>env.str(name)\<close> raises when the variable is not set; both reads stand before the
  \<^verbatim>\<open>try\<close>.
\<close>

record run =
  events :: "event list"
  raised :: "exn option"

definition main :: "world \<Rightarrow> run option" where
  "main w =
     (case seller_token_env w of
        None \<Rightarrow> Some \<lparr>events = [], raised = Some EnvError\<rparr>
      | Some seller_token \<Rightarrow>
         (case client_id_env w of
            None \<Rightarrow> Some \<lparr>events = [], raised = Some EnvError\<rparr>
          | Some client_id \<Rightarrow>
             (case main_try w of
                None \<Rightarrow> None
              | Some (evs, None) \<Rightarrow> Some \<lparr>events = evs, raised = None\<rparr>
              | Some (evs, Some e) \<Rightarrow> Some \<lparr>events = evs @ [Print (handler e)], raised = None\<rparr>)))"

text \<open>
  \<^verbatim>\<open>upload_prices(watch_remnants, ...)\<close>, the programmatic path, declared \<^verbatim>\<open>async\<close>: its
  body, which runs through without a suspension point, fetches a list of its own and sends
  the prices in batches of 1000. The result holds the events and what the body returns or
  raises.
\<close>

definition upload_prices :: "world \<Rightarrow> watch list \<Rightarrow> (event list \<times> (exn + price_item list)) option" where
  "upload_prices w watch_remnants =
     (case get_offer_ids (product_list_api w) of
        None \<Rightarrow> None
      | Some (evs1, Inl e) \<Rightarrow> Some (evs1, Inl e)
      | Some (evs1, Inr ids) \<Rightarrow>
          Some (let offer_ids = 0; h = (\<lambda>_. [])(offer_ids := ids) in
            case create_prices h watch_remnants offer_ids of
              Inl e \<Rightarrow> (evs1, Inl e)
            | Inr prices \<Rightarrow>
               (case divide_list prices 1000 of
                  Inl e \<Rightarrow> (evs1, Inl e)
                | Inr pchunks \<Rightarrow>
                   (case update_loop (update_price_api w) UpdatePrice 0 pchunks of
                      (evs3, Some e) \<Rightarrow> (evs1 @ evs3, Inl e)
                    | (evs3, None) \<Rightarrow> (evs1 @ evs3, Inr prices)))))"

section \<open>Notions of the specification\<close>

text \<open>The SKU of a record, as the script reads it: \<^verbatim>\<open>str(watch.get(...))\<close> of the code cell.\<close>

definition sku :: "watch \<Rightarrow> pyval" where
  "sku w = PyStr (py_str (kod w))"

text \<open>
  The specification's words for \<^verbatim>\<open>createStocks\<close>: a record is matched when its SKU is
  in the working SKU list; a matched record takes the first occurrence of its SKU out of
  the list, so that a later record with the same SKU finds it only if the list held it
  twice. \<open>matched ids ws\<close> are the matched records, in record order; \<open>remaining ids ws\<close>
  are the SKUs no record has taken, in list order.
\<close>

fun matched :: "pyval list \<Rightarrow> watch list \<Rightarrow> watch list" where
  "matched ids [] = []"
| "matched ids (w # ws) =
     (if sku w \<in> set ids then w # matched (remove1 (sku w) ids) ws else matched ids ws)"

fun remaining :: "pyval list \<Rightarrow> watch list \<Rightarrow> pyval list" where
  "remaining ids [] = ids"
| "remaining ids (w # ws) = remaining (remove1 (sku w) ids) ws"

text \<open>
  The stock policy in the specification's words: the quantity text \<^verbatim>\<open>">10"\<close> gives 100,
  \<^verbatim>\<open>"1"\<close> gives 0, anything else is read as an integer. \<open>stock_entry\<close> and \<open>price_entry\<close>
  are the updates the specification describes for a matched record; the price is the text
  before the first \<^verbatim>\<open>"."\<close> with everything but digits deleted.
\<close>

definition policy :: "watch \<Rightarrow> exn + int" where
  "policy w =
     (if py_str (kolichestvo w) = ''>10'' then Inr 100
      else if py_str (kolichestvo w) = ''1'' then Inr 0
      else py_int (kolichestvo w))"

definition stock_entry :: "watch \<Rightarrow> stock_item" where
  "stock_entry w = \<lparr>s_offer_id = sku w, stock = (case policy w of Inr n \<Rightarrow> n | Inl _ \<Rightarrow> 0)\<rparr>"

definition price_entry :: "watch \<Rightarrow> price_item" where
  "price_entry w =
     \<lparr>auto_action_enabled = ''UNKNOWN'', currency_code = ''RUB'', p_offer_id = sku w,
      old_price = ''0'',
      price = filter is_digit (takeWhile (\<lambda>c. c \<noteq> CHR ''.'') (py_str (tsena w)))\<rparr>"

text \<open>
  The records of the examples in the docstrings of \<^verbatim>\<open>create_stocks\<close> and
  \<^verbatim>\<open>create_prices\<close>, and a store whose cell 0 holds a given SKU list.
\<close>

definition example_remnants :: "watch list" where
  "example_remnants =
     [\<lparr>kod = PyStr ''123'', kolichestvo = PyStr ''>10'', tsena = PyStr ''5000.00''\<rparr>,
      \<lparr>kod = PyStr ''124'', kolichestvo = PyStr ''1'', tsena = PyStr ''7000.50''\<rparr>,
      \<lparr>kod = PyStr ''125'', kolichestvo = PyStr ''5'', tsena = PyStr ''1200.00''\<rparr>]"

definition store_of :: "pyval list \<Rightarrow> heap" where
  "store_of ids = (\<lambda>_. [])(0 := ids)"

text \<open>
  Records that share a SKU, for the examples below.
\<close>

definition duplicate_remnants :: "watch list" where
  "duplicate_remnants =
     [\<lparr>kod = PyStr ''123'', kolichestvo = PyStr ''5'', tsena = PyStr ''5000.00''\<rparr>,
      \<lparr>kod = PyStr ''123'', kolichestvo = PyStr ''7'', tsena = PyStr ''7000.50 RUB''\<rparr>,
      \<lparr>kod = PyInt 9, kolichestvo = PyInt 3, tsena = PyStr ''1200.00''\<rparr>]"

text \<open>
  A record whose quantity text begins with a separator character that \<^verbatim>\<open>int\<close> does not
  strip.
\<close>

definition unreadable_remnants :: "watch list" where
  "unreadable_remnants =
     [\<lparr>kod = PyStr ''7'', kolichestvo = PyStr [CHR 0x1C, CHR ''5''], tsena = PyStr ''100.00''\<rparr>]"

text \<open>
  The specification's words for \<^verbatim>\<open>collectAllOfferIds\<close>, for a server \<open>api\<close>: the cursor
  of the \<open>k\<close>-th request (empty at first, then the \<open>last_id\<close> of the answer before), the
  \<open>k\<close>-th answer, its items when it is a page that has some, the items accumulated before
  the \<open>k\<close>-th request, whether the accumulated count equals the reported total at the
  \<open>k\<close>-th answer, whether the \<open>k\<close>-th answer is a page that leaves the count different
  from the total, the exception the \<open>k\<close>-th answer makes the script raise, and the first
  \<open>n\<close> requests.
\<close>

type_synonym api = "nat \<Rightarrow> pyval \<Rightarrow> exn + page option"

fun cursor_at :: "api \<Rightarrow> nat \<Rightarrow> pyval" where
  "cursor_at api 0 = PyStr []"
| "cursor_at api (Suc k) =
     (case api k (cursor_at api k) of Inr (Some p) \<Rightarrow> last_id p | _ \<Rightarrow> PyNone)"

definition answer :: "api \<Rightarrow> nat \<Rightarrow> exn + page option" where
  "answer api k = api k (cursor_at api k)"

definition answer_items :: "api \<Rightarrow> nat \<Rightarrow> product list option" where
  "answer_items api k = (case answer api k of Inr (Some p) \<Rightarrow> items p | _ \<Rightarrow> None)"

fun accumulated :: "api \<Rightarrow> nat \<Rightarrow> product list" where
  "accumulated api 0 = []"
| "accumulated api (Suc k) =
     accumulated api k @ (case answer_items api k of Some its \<Rightarrow> its | None \<Rightarrow> [])"

definition total_reached :: "api \<Rightarrow> nat \<Rightarrow> bool" where
  "total_reached api k =
     (case answer api k of
        Inr (Some p) \<Rightarrow> items p \<noteq> None \<and> total' p = PyInt (int (length (accumulated api (Suc k))))
      | _ \<Rightarrow> False)"

definition goes_on :: "api \<Rightarrow> nat \<Rightarrow> bool" where
  "goes_on api k = (answer_items api k \<noteq> None \<and> \<not> total_reached api k)"

definition failure_at :: "api \<Rightarrow> nat \<Rightarrow> exn option" where
  "failure_at api k =
     (case answer api k of
        Inl e \<Rightarrow> Some e
      | Inr None \<Rightarrow> Some AttributeError
      | Inr (Some p) \<Rightarrow> (case items p of None \<Rightarrow> Some TypeError | Some _ \<Rightarrow> None))"

definition requests :: "api \<Rightarrow> nat \<Rightarrow> event list" where
  "requests api n = map (\<lambda>j. ListProducts (cursor_at api j)) [0..<n]"

text \<open>
  Two servers for the examples: one that answers three products in two pages, and one
  that reports a total of 1 and never sends an item.
\<close>

definition example_api :: api where
  "example_api k c =
     (if k = 0 then
        Inr (Some \<lparr>items = Some [\<lparr>offer_id = PyStr ''123''\<rparr>, \<lparr>offer_id = PyStr ''124''\<rparr>],
                   total' = PyInt 3, last_id = PyStr ''a''\<rparr>)
      else
        Inr (Some \<lparr>items = Some [\<lparr>offer_id = PyStr ''126''\<rparr>], total' = PyInt 3,
                   last_id = PyStr ''b''\<rparr>))"

definition stalled_api :: api where
  "stalled_api k c = Inr (Some \<lparr>items = Some [], total' = PyInt 1, last_id = c\<rparr>)"

text \<open>
  Notions for the top-level run. \<open>credentials\<close>: both environment variables are set.
  \<open>phase\<close> numbers the steps in the order the code takes them, \<open>spec_phase\<close> in the
  order the specification's state machine names them (remnants first, then the SKU list).
  \<open>all_ok\<close>: every upload of a list of batches succeeds; \<open>first_failure\<close>: the upload of
  batch \<open>i\<close> is the first that raises, with \<open>e\<close>. \<open>trace_shape\<close>: the events of the \<^verbatim>\<open>try\<close>
  block are page requests, then at most one download, then stock batches of 1 to 100
  entries, then price batches of 1 to 900 entries, the latter cut from the result of
  create_prices on the store that create_stocks left.
\<close>

definition credentials :: "world \<Rightarrow> bool" where
  "credentials w = (seller_token_env w \<noteq> None \<and> client_id_env w \<noteq> None)"

fun phase :: "event \<Rightarrow> nat" where
  "phase (ListProducts _) = 0"
| "phase DownloadStock = 1"
| "phase (UpdateStocks _) = 2"
| "phase (UpdatePrice _) = 3"
| "phase (Print _) = 4"

fun spec_phase :: "event \<Rightarrow> nat" where
  "spec_phase DownloadStock = 0"
| "spec_phase (ListProducts _) = 1"
| "spec_phase (UpdateStocks _) = 2"
| "spec_phase (UpdatePrice _) = 3"
| "spec_phase (Print _) = 4"

definition all_ok :: "(nat \<Rightarrow> 'a \<Rightarrow> exn option) \<Rightarrow> 'a list \<Rightarrow> bool" where
  "all_ok api bs = (\<forall>i<length bs. api i (bs ! i) = None)"

definition first_failure :: "(nat \<Rightarrow> 'a \<Rightarrow> exn option) \<Rightarrow> 'a list \<Rightarrow> nat \<Rightarrow> exn \<Rightarrow> bool" where
  "first_failure api bs i e =
     (i < length bs \<and> (\<forall>j<i. api j (bs ! j) = None) \<and> api i (bs ! i) = Some e)"

definition trace_shape :: "world \<Rightarrow> event list \<Rightarrow> bool" where
  "trace_shape w evs =
     (\<exists>n d ss ps.
         evs = requests (product_list_api w) (Suc n) @ d @ map UpdateStocks ss @ map UpdatePrice ps
       \<and> (d = [] \<or> d = [DownloadStock])
       \<and> (\<forall>b \<in> set ss. 1 \<le> length b \<and> length b \<le> 100)
       \<and> (\<forall>b \<in> set ps. 1 \<le> length b \<and> length b \<le> 900)
       \<and> (ps \<noteq> [] \<longrightarrow>
            (\<exists>evs1 ids ws h1 stocks prices pchunks.
                get_offer_ids (product_list_api w) = Some (evs1, Inr ids)
              \<and> download_stock_result w = Inr ws
              \<and> create_stocks ((\<lambda>_. [])(0 := ids)) ws 0 = (h1, Inr stocks)
              \<and> create_prices h1 ws 0 = Inr prices
              \<and> divide_list prices 900 = Inr pchunks
              \<and> set ps \<subseteq> set pchunks)))"

text \<open>
  Worlds for the examples: every step succeeds; the same with a catalogue that lists the
  SKU \<^verbatim>\<open>"123"\<close> twice; the same with a download that fails to connect.
\<close>

definition example_world :: world where
  "example_world =
     \<lparr>seller_token_env = Some ''token'', client_id_env = Some ''client'',
      product_list_api = example_api, download_stock_result = Inr example_remnants,
      update_stocks_api = (\<lambda>k b. None), update_price_api = (\<lambda>k b. None)\<rparr>"

definition twin_api :: api where
  "twin_api k c =
     Inr (Some \<lparr>items = Some [\<lparr>offer_id = PyStr ''123''\<rparr>, \<lparr>offer_id = PyStr ''123''\<rparr>],
                total' = PyInt 2, last_id = PyStr ''a''\<rparr>)"

definition twin_world :: world where
  "twin_world = example_world\<lparr>product_list_api := twin_api\<rparr>"

definition offline_world :: world where
  "offline_world = example_world\<lparr>download_stock_result := Inl (ConnectionError ''no route'')\<rparr>"

text \<open>
  Two more worlds: one without the seller token, one whose every page request times out.
\<close>

definition no_token_world :: world where
  "no_token_world = example_world\<lparr>seller_token_env := None\<rparr>"

definition slow_world :: world where
  "slow_world = example_world\<lparr>product_list_api := (\<lambda>k c. Inl ReadTimeout)\<rparr>"

section \<open>Properties of price_conversion\<close>

lemma hd_py_split: "\<exists>ps. py_split sep s = takeWhile (\<lambda>c. c \<noteq> sep) s # ps"
  by (induction s) (auto split: list.splits)

lemma price_conversion_str:
  "price_conversion (PyStr s) = Inr (filter is_digit (takeWhile (\<lambda>c. c \<noteq> CHR ''.'') s))"
proof -
  obtain ps where "py_split (CHR ''.'') s = takeWhile (\<lambda>c. c \<noteq> CHR ''.'') s # ps"
    using hd_py_split by blast
  then show ?thesis
    by (simp add: re_sub_non_digits_def)
qed

lemma dot_not_digit: "is_digit c \<Longrightarrow> c \<noteq> CHR ''.''"
  by (auto simp: is_digit_def)

text \<open>
  C5. price_conversion cuts its input at the first \<^verbatim>\<open>"."\<close> and then deletes every
  character that is not a digit; the four examples of the specification come out as
  stated; and a string of digits only is returned as it is.
\<close>

theorem price_conversion_normalizes:
  "price_conversion (PyStr s) = Inr (filter is_digit (takeWhile (\<lambda>c. c \<noteq> CHR ''.'') s))
   \<and> price_conversion (PyStr ''123.45 USD'') = Inr ''123''
   \<and> price_conversion (PyStr ''a1b2c3'') = Inr ''123''
   \<and> price_conversion (PyStr ''5000.00'') = Inr ''5000''
   \<and> price_conversion (PyStr ''7000.50 RUB'') = Inr ''7000''
   \<and> ((\<forall>c \<in> set d. is_digit c) \<longrightarrow> price_conversion (PyStr d) = Inr d)"
proof -
  have idem: "price_conversion (PyStr d) = Inr d" if "\<forall>c \<in> set d. is_digit c"
  proof -
    have tw: "takeWhile (\<lambda>c. c \<noteq> CHR ''.'') d = d"
      using that dot_not_digit by (auto simp: takeWhile_eq_all_conv)
    have fl: "filter is_digit d = d"
      using that by (simp add: filter_id_conv)
    show ?thesis
      unfolding price_conversion_str tw fl ..
  qed
  show ?thesis
    using idem by (simp add: price_conversion_str is_digit_def del: price_conversion.simps)
qed

theorem price_conversion_normalizes_witness:
  "price_conversion (PyStr ''5000'') = Inr ''5000''"
proof -
  have "\<forall>c \<in> set ''5000''. is_digit c" by (simp add: is_digit_def)
  with price_conversion_normalizes [of "[]" "''5000''"] show ?thesis by blast
qed

section \<open>Properties of divide\<close>

declare divide_from.simps [simp del]

lemma divide_from_step:
  "0 < n \<Longrightarrow> i < length lst \<Longrightarrow>
   divide_from lst n i = take n (drop i lst) # divide_from lst n (i + n)"
  by (subst divide_from.simps) simp

lemma divide_from_done: "length lst \<le> i \<Longrightarrow> divide_from lst n i = []"
  by (subst divide_from.simps) simp

lemma concat_divide_from: "0 < n \<Longrightarrow> concat (divide_from lst n i) = drop i lst"
proof (induction lst n i rule: divide_from.induct)
  case (1 lst n i)
  show ?case
  proof (cases "i < length lst")
    case True
    with 1 have "concat (divide_from lst n (i + n)) = drop (i + n) lst" by simp
    then have "concat (divide_from lst n i) = take n (drop i lst) @ drop n (drop i lst)"
      using True 1(2) by (simp add: divide_from_step add.commute)
    then show ?thesis by (simp only: append_take_drop_id)
  next
    case False
    then show ?thesis by (simp add: divide_from_done)
  qed
qed

lemma divide_from_lengths:
  "0 < n \<Longrightarrow> c \<in> set (divide_from lst n i) \<Longrightarrow> 1 \<le> length c \<and> length c \<le> n"
proof (induction lst n i rule: divide_from.induct)
  case (1 lst n i)
  show ?case
  proof (cases "i < length lst")
    case True
    with 1 show ?thesis by (auto simp: divide_from_step)
  next
    case False
    with 1(3) show ?thesis by (simp add: divide_from_done)
  qed
qed

lemma divide_from_butlast:
  "0 < n \<Longrightarrow> c \<in> set (butlast (divide_from lst n i)) \<Longrightarrow> length c = n"
proof (induction lst n i rule: divide_from.induct)
  case (1 lst n i)
  show ?case
  proof (cases "i < length lst")
    case True
    note eq = divide_from_step [OF 1(2) True]
    show ?thesis
    proof (cases "i + n < length lst")
      case more: True
      then have "divide_from lst n (i + n) \<noteq> []"
        using 1(2) by (simp add: divide_from_step)
      with eq 1(3) have "c = take n (drop i lst) \<or> c \<in> set (butlast (divide_from lst n (i + n)))"
        by auto
      then show ?thesis
        using 1(1) True 1(2) more by auto
    next
      case False
      then have "divide_from lst n (i + n) = []" by (simp add: divide_from_done)
      with eq 1(3) show ?thesis by simp
    qed
  next
    case False
    with 1(3) show ?thesis by (simp add: divide_from_done)
  qed
qed

text \<open>
  C6. For a chunk size \<open>n > 0\<close>, divide returns consecutive slices in input order: their
  concatenation is the input list, every chunk but the last has exactly \<open>n\<close> items, the
  last one has between 1 and \<open>n\<close>, the empty list gives no chunk, and the seven numbers
  1..7 in chunks of 3 give [1,2,3], [4,5,6], [7].
\<close>

theorem divide_consecutive_chunks:
  "0 < n \<Longrightarrow>
   (\<exists>chunks. divide_list lst n = Inr chunks
      \<and> concat chunks = lst
      \<and> (\<forall>c \<in> set (butlast chunks). int (length c) = n)
      \<and> (chunks \<noteq> [] \<longrightarrow> 1 \<le> length (last chunks) \<and> int (length (last chunks)) \<le> n)
      \<and> (lst = [] \<longrightarrow> chunks = []))
   \<and> divide_list [1, 2, 3, 4, 5, 6, 7 :: int] 3 = Inr [[1, 2, 3], [4, 5, 6], [7]]"
proof
  assume n: "0 < n"
  let ?cs = "divide_from lst (nat n) 0"
  have pos: "0 < nat n" using n by simp
  have 1: "divide_list lst n = Inr ?cs" using n by (simp add: divide_list_def)
  have 2: "concat ?cs = lst" using concat_divide_from [OF pos, of lst 0] by simp
  have 3: "\<forall>c \<in> set (butlast ?cs). int (length c) = n"
    using divide_from_butlast [OF pos] n by fastforce
  have 4: "1 \<le> length (last ?cs) \<and> int (length (last ?cs)) \<le> n" if "?cs \<noteq> []"
  proof -
    have "last ?cs \<in> set ?cs" using that by simp
    from divide_from_lengths [OF pos this] show ?thesis using n by linarith
  qed
  have 5: "lst = [] \<longrightarrow> ?cs = []" by (simp add: divide_from_done)
  show "\<exists>chunks. divide_list lst n = Inr chunks
      \<and> concat chunks = lst
      \<and> (\<forall>c \<in> set (butlast chunks). int (length c) = n)
      \<and> (chunks \<noteq> [] \<longrightarrow> 1 \<le> length (last chunks) \<and> int (length (last chunks)) \<le> n)
      \<and> (lst = [] \<longrightarrow> chunks = [])"
    using 1 2 3 4 5 by blast
next
  show "divide_list [1, 2, 3, 4, 5, 6, 7 :: int] 3 = Inr [[1, 2, 3], [4, 5, 6], [7]]"
    by (simp add: divide_list_def divide_from.simps)
qed

theorem divide_consecutive_chunks_witness:
  "(0 :: int) < 2
   \<and> (\<exists>chunks. divide_list ''abcde'' 2 = Inr chunks
        \<and> chunks = [''ab'', ''cd'', ''e'']
        \<and> concat chunks = ''abcde''
        \<and> length (last chunks) = 1)"
proof -
  have ex: "divide_list ''abcde'' 2 = Inr [''ab'', ''cd'', ''e'']"
    by (simp add: divide_list_def divide_from.simps)
  have "0 < (2 :: int)" by simp
  from divide_consecutive_chunks [OF this, of "''abcde''"] ex show ?thesis by simp
qed


section \<open>Properties of create_stocks and create_prices\<close>

lemma subseq_remove1: "subseq (remove1 x xs) xs"
  by (induction xs) auto

lemma subseq_matched: "subseq (matched ids ws) ws"
  by (induction ws arbitrary: ids) auto

lemma subseq_remaining: "subseq (remaining ids ws) ids"
proof (induction ws arbitrary: ids)
  case Nil
  show ?case by simp
next
  case (Cons w ws)
  have "subseq (remaining (remove1 (sku w) ids) ws) (remove1 (sku w) ids)"
    by (rule Cons.IH)
  then show ?case
    using subseq_remove1 subseq_order.order_trans by fastforce
qed

lemma mset_matched_remaining:
  "mset (map sku (matched ids ws)) + mset (remaining ids ws) = mset ids"
proof (induction ws arbitrary: ids)
  case Nil
  show ?case by simp
next
  case (Cons w ws)
  show ?case
  proof (cases "sku w \<in> set ids")
    case True
    have "mset (map sku (matched ids (w # ws))) + mset (remaining ids (w # ws))
        = {#sku w#} + (mset (map sku (matched (remove1 (sku w) ids) ws))
            + mset (remaining (remove1 (sku w) ids) ws))"
      using True by simp
    also have "\<dots> = {#sku w#} + mset (remove1 (sku w) ids)"
      by (simp only: Cons.IH)
    also have "\<dots> = mset ids"
      using True by simp
    finally show ?thesis .
  next
    case False
    then have "remove1 (sku w) ids = ids" by (simp add: remove1_idem)
    with False Cons.IH [of ids] show ?thesis by simp
  qed
qed

lemma mset_remaining: "mset (remaining ids ws) = mset ids - mset (map sku ws)"
  by (induction ws arbitrary: ids) (auto simp: diff_diff_add_mset)

lemma matched_sku_subset: "set (matched ids ws) \<subseteq> set ws"
  by (induction ws arbitrary: ids) auto

lemma remaining_distinct:
  "distinct ids \<Longrightarrow> set (remaining ids ws) = set ids - sku ` set ws"
  by (induction ws arbitrary: ids) auto

lemma foldl_zero:
  "foldl (\<lambda>stocks offer_id. stocks @ [\<lparr>s_offer_id = offer_id, stock = 0\<rparr>]) acc ids
   = acc @ map (\<lambda>i. \<lparr>s_offer_id = i, stock = 0\<rparr>) ids"
  by (induction ids arbitrary: acc) auto

lemma stocks_loop_step:
  "sku w \<in> set (h r) \<Longrightarrow> policy w = Inr n \<Longrightarrow>
   stocks_loop (w # ws) r h acc
     = stocks_loop ws r (h(r := remove1 (sku w) (h r))) (acc @ [\<lparr>s_offer_id = sku w, stock = n\<rparr>])"
  by (simp add: sku_def policy_def Let_def)

lemma stocks_loop_raise:
  "sku w \<in> set (h r) \<Longrightarrow> policy w = Inl e \<Longrightarrow> stocks_loop (w # ws) r h acc = (h, Inl e)"
  by (simp add: sku_def policy_def Let_def)

lemma stocks_loop_skip:
  "sku w \<notin> set (h r) \<Longrightarrow> stocks_loop (w # ws) r h acc = stocks_loop ws r h acc"
  by (simp add: sku_def)

declare stocks_loop.simps(2) [simp del]

lemma stocks_loop_ok:
  "\<forall>w \<in> set (matched (h r) ws). \<exists>n. policy w = Inr n \<Longrightarrow>
   stocks_loop ws r h acc
     = (h(r := remaining (h r) ws), Inr (acc @ map stock_entry (matched (h r) ws)))"
proof (induction ws arbitrary: h acc)
  case Nil
  show ?case by simp
next
  case (Cons w ws)
  show ?case
  proof (cases "sku w \<in> set (h r)")
    case False
    with Cons show ?thesis by (simp add: stocks_loop_skip remove1_idem)
  next
    case True
    let ?h = "h(r := remove1 (sku w) (h r))"
    let ?acc = "acc @ [\<lparr>s_offer_id = sku w, stock = n\<rparr>]"
    from True Cons.prems obtain n where n: "policy w = Inr n" by auto
    have rest: "\<forall>v \<in> set (matched (?h r) ws). \<exists>n. policy v = Inr n"
      using True Cons.prems by simp
    have "stocks_loop (w # ws) r h acc
        = stocks_loop ws r ?h (acc @ [\<lparr>s_offer_id = sku w, stock = n\<rparr>])"
      using True n by (rule stocks_loop_step)
    also have "\<dots> = (?h(r := remaining (?h r) ws),
        Inr ((acc @ [\<lparr>s_offer_id = sku w, stock = n\<rparr>]) @ map stock_entry (matched (?h r) ws)))"
      using rest by (rule Cons.IH [where h = ?h])
    finally show ?thesis
      using True n by (auto simp: stock_entry_def fun_eq_iff)
  qed
qed

lemma stocks_loop_fail:
  "\<exists>w \<in> set (matched (h r) ws). \<exists>e. policy w = Inl e \<Longrightarrow>
   \<exists>h' e. stocks_loop ws r h acc = (h', Inl e)
      \<and> (\<exists>w \<in> set (matched (h r) ws). policy w = Inl e)"
proof (induction ws arbitrary: h acc)
  case Nil
  then show ?case by simp
next
  case (Cons w ws)
  show ?case
  proof (cases "sku w \<in> set (h r)")
    case False
    with Cons.prems Cons.IH [where h = h] show ?thesis by (simp add: stocks_loop_skip)
  next
    case True
    let ?h = "h(r := remove1 (sku w) (h r))"
    show ?thesis
    proof (cases "policy w")
      case (Inl e)
      with True have "stocks_loop (w # ws) r h acc = (h, Inl e)"
        by (rule stocks_loop_raise)
      with Inl True show ?thesis by auto
    next
      case (Inr n)
      with True have step: "stocks_loop (w # ws) r h acc
          = stocks_loop ws r ?h (acc @ [\<lparr>s_offer_id = sku w, stock = n\<rparr>])"
        by (rule stocks_loop_step)
      from Cons.prems True Inr
      have "\<exists>v \<in> set (matched (?h r) ws). \<exists>e. policy v = Inl e" by auto
      then have "\<exists>h' e. stocks_loop ws r ?h (acc @ [\<lparr>s_offer_id = sku w, stock = n\<rparr>]) = (h', Inl e)
          \<and> (\<exists>v \<in> set (matched (?h r) ws). policy v = Inl e)"
        by (rule Cons.IH [where h = ?h])
      with step True show ?thesis by auto
    qed
  qed
qed

lemma create_stocks_ok:
  "\<forall>w \<in> set (matched (h r) ws). \<exists>n. policy w = Inr n \<Longrightarrow>
   create_stocks h ws r
     = (h(r := remaining (h r) ws),
        Inr (map stock_entry (matched (h r) ws)
             @ map (\<lambda>i. \<lparr>s_offer_id = i, stock = 0\<rparr>) (remaining (h r) ws)))"
  by (simp add: create_stocks_def stocks_loop_ok foldl_zero)

lemma create_stocks_fail:
  assumes "\<exists>w \<in> set (matched (h r) ws). \<exists>e. policy w = Inl e"
  shows "\<exists>h' e. create_stocks h ws r = (h', Inl e) \<and> (\<exists>w \<in> set (matched (h r) ws). policy w = Inl e)"
proof -
  from assms have "\<exists>h' e. stocks_loop ws r h [] = (h', Inl e)
      \<and> (\<exists>w \<in> set (matched (h r) ws). policy w = Inl e)"
    by (rule stocks_loop_fail [where h = h])
  then show ?thesis by (auto simp: create_stocks_def)
qed

lemma policy_cases:
  "(\<forall>w \<in> set xs. \<exists>n. policy w = Inr n) \<or> (\<exists>w \<in> set xs. \<exists>e. policy w = Inl e)"
  by (metis sum.exhaust)

lemma create_stocks_Inr:
  assumes "create_stocks h ws r = (h', Inr out)"
  shows "(\<forall>w \<in> set (matched (h r) ws). \<exists>n. policy w = Inr n)
    \<and> h' = h(r := remaining (h r) ws)
    \<and> out = map stock_entry (matched (h r) ws)
             @ map (\<lambda>i. \<lparr>s_offer_id = i, stock = 0\<rparr>) (remaining (h r) ws)"
proof -
  have ok: "\<forall>w \<in> set (matched (h r) ws). \<exists>n. policy w = Inr n"
  proof (rule ccontr)
    assume "\<not> ?thesis"
    then have "\<exists>w \<in> set (matched (h r) ws). \<exists>e. policy w = Inl e"
      using policy_cases by blast
    then have "\<exists>h' e. create_stocks h ws r = (h', Inl e)
        \<and> (\<exists>w \<in> set (matched (h r) ws). policy w = Inl e)"
      by (rule create_stocks_fail [where h = h])
    with assms show False by auto
  qed
  then have "create_stocks h ws r
     = (h(r := remaining (h r) ws),
        Inr (map stock_entry (matched (h r) ws)
             @ map (\<lambda>i. \<lparr>s_offer_id = i, stock = 0\<rparr>) (remaining (h r) ws)))"
    by (rule create_stocks_ok [where h = h])
  with assms ok show ?thesis by simp
qed

lemma digit_cases:
  "(d::nat) < 10 \<Longrightarrow> P 0 \<Longrightarrow> P 1 \<Longrightarrow> P 2 \<Longrightarrow> P 3 \<Longrightarrow> P 4 \<Longrightarrow> P 5 \<Longrightarrow> P 6 \<Longrightarrow> P 7
   \<Longrightarrow> P 8 \<Longrightarrow> P 9 \<Longrightarrow> P d"
proof -
  assume "d < 10"
  then have "d = 0 \<or> d = 1 \<or> d = 2 \<or> d = 3 \<or> d = 4 \<or> d = 5 \<or> d = 6 \<or> d = 7 \<or> d = 8 \<or> d = 9"
    by arith
  then show "P 0 \<Longrightarrow> P 1 \<Longrightarrow> P 2 \<Longrightarrow> P 3 \<Longrightarrow> P 4 \<Longrightarrow> P 5 \<Longrightarrow> P 6 \<Longrightarrow> P 7 \<Longrightarrow> P 8 \<Longrightarrow> P 9 \<Longrightarrow> P d"
    by auto
qed

lemma digit_char_vals:
  "digit_char 0 = CHR ''0''" "digit_char 1 = CHR ''1''" "digit_char 2 = CHR ''2''"
  "digit_char 3 = CHR ''3''" "digit_char 4 = CHR ''4''" "digit_char 5 = CHR ''5''"
  "digit_char 6 = CHR ''6''" "digit_char 7 = CHR ''7''" "digit_char 8 = CHR ''8''"
  "digit_char 9 = CHR ''9''" "digit_char (Suc 0) = CHR ''1''"
  by code_simp+

lemma digit_char_props:
  "d < 10 \<Longrightarrow> is_digit (digit_char d) \<and> digit_val (digit_char d) = d"
  by (erule digit_cases) (simp_all add: digit_char_vals is_digit_def digit_val_def)

lemma is_digit_props:
  "is_digit c \<Longrightarrow> \<not> py_isspace c \<and> c \<noteq> CHR ''-'' \<and> c \<noteq> CHR ''+''"
  by (auto simp: is_digit_def py_isspace_def)

declare str_nat.simps [simp del]

lemma str_nat_digits: "c \<in> set (str_nat n) \<Longrightarrow> is_digit c"
proof (induction n rule: str_nat.induct)
  case (1 n)
  show ?case
  proof (cases "n < 10")
    case True
    with 1(2) show ?thesis by (subst (asm) str_nat.simps) (simp add: digit_char_props)
  next
    case False
    with 1 show ?thesis by (subst (asm) (2) str_nat.simps) (auto simp: digit_char_props)
  qed
qed

lemma str_nat_nonempty: "str_nat n \<noteq> []"
  by (subst str_nat.simps) simp

lemma str_nat_value: "foldl (\<lambda>a c. 10 * a + digit_val c) 0 (str_nat n) = n"
proof (induction n rule: str_nat.induct)
  case (1 n)
  show ?case
  proof (cases "n < 10")
    case True
    then show ?thesis by (subst str_nat.simps) (simp add: digit_char_props)
  next
    case False
    with 1 show ?thesis by (subst str_nat.simps) (simp add: digit_char_props)
  qed
qed

lemma digits_val_all:
  "\<forall>c \<in> set ds. is_digit c \<Longrightarrow>
   digits_val acc ds = Some (foldl (\<lambda>a c. 10 * a + digit_val c) acc ds)"
  by (induction acc ds rule: digits_val.induct) auto

lemma unsigned_val_all:
  "ds \<noteq> [] \<Longrightarrow> \<forall>c \<in> set ds. is_digit c \<Longrightarrow>
   unsigned_val ds = Some (foldl (\<lambda>a c. 10 * a + digit_val c) 0 ds)"
  by (cases ds) (simp_all add: unsigned_val_def digits_val_all)

lemma py_strip_digits:
  assumes "ds \<noteq> []" and "\<forall>c \<in> set ds. is_digit c"
  shows "py_strip ds = ds"
proof -
  have "\<not> py_isspace (hd ds)" using assms is_digit_props by (cases ds) auto
  then have 1: "dropWhile py_isspace ds = ds" by (simp add: dropWhile_eq_self_iff)
  have "\<not> py_isspace (hd (rev ds))"
    using assms is_digit_props by (simp add: hd_rev)
  then have "dropWhile py_isspace (rev ds) = rev ds" by (simp add: dropWhile_eq_self_iff)
  with 1 show ?thesis by (simp add: py_strip_def)
qed

lemma int_of_str_digits:
  assumes "ds \<noteq> []" and "\<forall>c \<in> set ds. is_digit c"
  shows "int_of_str ds =
     (if 4300 < length ds then Inl ValueError
      else Inr (int (foldl (\<lambda>a c. 10 * a + digit_val c) 0 ds)))"
proof -
  obtain c cs where ds: "ds = c # cs" using assms(1) by (cases ds) auto
  then have sign: "c \<noteq> CHR ''-'' \<and> c \<noteq> CHR ''+''" using assms(2) is_digit_props by auto
  have all: "filter is_digit ds = ds" using assms(2) by (simp add: filter_id_conv)
  have u: "unsigned_val ds = Some (foldl (\<lambda>a c. 10 * a + digit_val c) 0 ds)"
    by (rule unsigned_val_all [OF assms])
  have t: "py_strip ds = c # cs" using py_strip_digits [OF assms] ds by simp
  have "int_of_str ds =
     (if 4300 < length (filter is_digit ds) then Inl ValueError
      else Inr (int (foldl (\<lambda>a c. 10 * a + digit_val c) 0 ds)))"
    unfolding int_of_str_def Let_def t using sign u [unfolded ds] by (simp add: ds)
  then show ?thesis
    by (simp only: all)
qed

lemma py_int_str_nat:
  "py_int (PyStr (str_nat n)) =
     (if 4300 < length (str_nat n) then Inl ValueError else Inr (int n))"
  using int_of_str_digits [of "str_nat n"] str_nat_digits str_nat_nonempty
  by (simp add: str_nat_value)

lemma py_int_too_long: "py_int (PyStr (replicate 4301 (CHR ''0''))) = Inl ValueError"
proof -
  have "replicate 4301 (CHR ''0'') \<noteq> []" by simp
  moreover have "\<forall>c \<in> set (replicate 4301 (CHR ''0'')). is_digit c"
    by (simp add: is_digit_def)
  ultimately show ?thesis
    using int_of_str_digits [of "replicate 4301 (CHR ''0'')"] by simp
qed

lemma int_of_str_error: "int_of_str t = Inl e \<Longrightarrow> e = ValueError"
  by (auto simp: int_of_str_def Let_def split: option.splits if_splits)

lemma int_of_str_examples:
  "py_int (PyStr ''5'') = Inr 5" "py_int (PyStr ''abc'') = Inl ValueError"
  "py_int (PyStr ''5.0'') = Inl ValueError" "py_int (PyStr []) = Inl ValueError"
  "py_int (PyStr '' 12 '') = Inr 12" "py_int (PyStr ''-3'') = Inr (- 3)"
  "py_int (PyStr ''1_000'') = Inr 1000" "py_int (PyStr ''1__0'') = Inl ValueError"
  "py_int (PyStr [CHR 0x1C, CHR ''5'']) = Inl ValueError"
  by (simp_all add: int_of_str_def py_strip_def py_isspace_def unsigned_val_def is_digit_def
      digit_val_def)

lemma matched_filter:
  "distinct (map sku ws) \<Longrightarrow> matched ids ws = filter (\<lambda>w. sku w \<in> set ids) ws"
proof (induction ws arbitrary: ids)
  case Nil
  show ?case by simp
next
  case (Cons w ws)
  have "filter (\<lambda>v. sku v \<in> set (remove1 (sku w) ids)) ws = filter (\<lambda>v. sku v \<in> set ids) ws"
  proof (rule filter_cong [OF refl])
    fix v assume v: "v \<in> set ws"
    from Cons.prems have "sku w \<notin> sku ` set ws" by simp
    with v have "sku v \<noteq> sku w" by (metis imageI)
    then show "(sku v \<in> set (remove1 (sku w) ids)) = (sku v \<in> set ids)" by simp
  qed
  with Cons show ?case by simp
qed

lemma policy_Inr_iff:
  "policy w = Inr n \<longleftrightarrow>
     (if py_str (kolichestvo w) = ''>10'' then n = 100
      else if py_str (kolichestvo w) = ''1'' then n = 0
      else py_int (kolichestvo w) = Inr n)"
  by (auto simp: policy_def)

lemma policy_Inl_iff:
  "policy w = Inl e \<longleftrightarrow>
     py_str (kolichestvo w) \<noteq> ''>10'' \<and> py_str (kolichestvo w) \<noteq> ''1''
     \<and> py_int (kolichestvo w) = Inl e"
  by (auto simp: policy_def)

text \<open>
  C3. Every matched record (a record that finds its SKU in the list) gets one entry, whose
  stock follows the policy: quantity text \<^verbatim>\<open>">10"\<close> gives 100, \<^verbatim>\<open>"1"\<close> gives 0, any other
  quantity is read with \<^verbatim>\<open>int\<close> and gives that integer. The call raises exactly when
  \<^verbatim>\<open>int\<close> fails on such a record, with the error of \<^verbatim>\<open>int\<close>, which for a text is
  \<^verbatim>\<open>ValueError\<close>. A decimal numeral of at most 4300 digits reads as its value, a longer
  one raises; white space around the numeral, a sign and single underscores between
  digits are read; \<^verbatim>\<open>"abc"\<close>, \<^verbatim>\<open>"5.0"\<close>, the empty text, a doubled underscore and a leading
  separator character (code point 28) do not read. When no two records share a SKU, the
  matched records are the records whose SKU is in the list.
\<close>

theorem create_stocks_stock_policy:
  "create_stocks h ws r = (h', res) \<Longrightarrow>
     (\<forall>out. res = Inr out \<longrightarrow>
        list_all2 (\<lambda>w e. s_offer_id e = sku w
             \<and> (if py_str (kolichestvo w) = ''>10'' then stock e = 100
                else if py_str (kolichestvo w) = ''1'' then stock e = 0
                else py_int (kolichestvo w) = Inr (stock e)))
          (matched (h r) ws) (take (length (matched (h r) ws)) out))
   \<and> (\<forall>e. res = Inl e \<longrightarrow>
        (\<exists>w \<in> set (matched (h r) ws). py_str (kolichestvo w) \<noteq> ''>10''
           \<and> py_str (kolichestvo w) \<noteq> ''1'' \<and> py_int (kolichestvo w) = Inl e))
   \<and> ((\<exists>w \<in> set (matched (h r) ws). py_str (kolichestvo w) \<noteq> ''>10''
           \<and> py_str (kolichestvo w) \<noteq> ''1'' \<and> (\<exists>e. py_int (kolichestvo w) = Inl e))
        \<longrightarrow> (\<exists>e. res = Inl e))
   \<and> (\<forall>t e. py_int (PyStr t) = Inl e \<longrightarrow> e = ValueError)
   \<and> (\<forall>n. length (str_nat n) \<le> 4300 \<longrightarrow> py_int (PyStr (str_nat n)) = Inr (int n))
   \<and> (\<forall>n. 4300 < length (str_nat n) \<longrightarrow> py_int (PyStr (str_nat n)) = Inl ValueError)
   \<and> py_int (PyStr (replicate 4301 (CHR ''0''))) = Inl ValueError
   \<and> py_int (PyStr ''5'') = Inr 5
   \<and> py_int (PyStr ''abc'') = Inl ValueError
   \<and> py_int (PyStr ''5.0'') = Inl ValueError
   \<and> py_int (PyStr []) = Inl ValueError
   \<and> py_int (PyStr '' 12 '') = Inr 12
   \<and> py_int (PyStr ''-3'') = Inr (- 3)
   \<and> py_int (PyStr ''1_000'') = Inr 1000
   \<and> py_int (PyStr ''1__0'') = Inl ValueError
   \<and> py_int (PyStr [CHR 0x1C, CHR ''5'']) = Inl ValueError
   \<and> (distinct (map sku ws) \<longrightarrow> matched (h r) ws = filter (\<lambda>w. sku w \<in> set (h r)) ws)"
proof -
  assume run: "create_stocks h ws r = (h', res)"
  have 1: "list_all2 (\<lambda>w e. s_offer_id e = sku w
             \<and> (if py_str (kolichestvo w) = ''>10'' then stock e = 100
                else if py_str (kolichestvo w) = ''1'' then stock e = 0
                else py_int (kolichestvo w) = Inr (stock e)))
          (matched (h r) ws) (take (length (matched (h r) ws)) out)" if "res = Inr out" for out
  proof -
    from create_stocks_Inr [of h ws r h' out] run that
    have ok: "\<forall>w \<in> set (matched (h r) ws). \<exists>n. policy w = Inr n"
      and out: "out = map stock_entry (matched (h r) ws)
             @ map (\<lambda>i. \<lparr>s_offer_id = i, stock = 0\<rparr>) (remaining (h r) ws)"
      by simp_all
    have tk: "take (length (matched (h r) ws)) out = map stock_entry (matched (h r) ws)"
      by (simp add: out)
    have "s_offer_id (stock_entry w) = sku w
             \<and> (if py_str (kolichestvo w) = ''>10'' then stock (stock_entry w) = 100
                else if py_str (kolichestvo w) = ''1'' then stock (stock_entry w) = 0
                else py_int (kolichestvo w) = Inr (stock (stock_entry w)))"
      if "w \<in> set (matched (h r) ws)" for w
    proof -
      from that ok obtain n where n: "policy w = Inr n" by blast
      then have "stock (stock_entry w) = n" "s_offer_id (stock_entry w) = sku w"
        by (simp_all add: stock_entry_def)
      with n show ?thesis
        by (simp add: policy_Inr_iff)
    qed
    then have "list_all2 (\<lambda>w e. s_offer_id e = sku w
             \<and> (if py_str (kolichestvo w) = ''>10'' then stock e = 100
                else if py_str (kolichestvo w) = ''1'' then stock e = 0
                else py_int (kolichestvo w) = Inr (stock e)))
          (matched (h r) ws) (map stock_entry (matched (h r) ws))"
      by (simp add: list_all2_map2 list_all2_same)
    then show ?thesis by (simp only: tk)
  qed
  have 2: "\<exists>w \<in> set (matched (h r) ws). py_str (kolichestvo w) \<noteq> ''>10''
           \<and> py_str (kolichestvo w) \<noteq> ''1'' \<and> py_int (kolichestvo w) = Inl e" if "res = Inl e" for e
  proof -
    have "\<not> (\<forall>w \<in> set (matched (h r) ws). \<exists>n. policy w = Inr n)"
    proof
      assume "\<forall>w \<in> set (matched (h r) ws). \<exists>n. policy w = Inr n"
      then have "create_stocks h ws r
         = (h(r := remaining (h r) ws),
            Inr (map stock_entry (matched (h r) ws)
             @ map (\<lambda>i. \<lparr>s_offer_id = i, stock = 0\<rparr>) (remaining (h r) ws)))"
        by (rule create_stocks_ok [where h = h])
      with run that show False by simp
    qed
    then have "\<exists>w \<in> set (matched (h r) ws). \<exists>e. policy w = Inl e"
      using policy_cases by blast
    then have "\<exists>h' e. create_stocks h ws r = (h', Inl e)
        \<and> (\<exists>w \<in> set (matched (h r) ws). policy w = Inl e)"
      by (rule create_stocks_fail [where h = h])
    with run that have "\<exists>w \<in> set (matched (h r) ws). policy w = Inl e" by auto
    then show ?thesis by (simp add: policy_Inl_iff)
  qed
  have 3: "\<exists>e. res = Inl e"
    if "\<exists>w \<in> set (matched (h r) ws). py_str (kolichestvo w) \<noteq> ''>10''
           \<and> py_str (kolichestvo w) \<noteq> ''1'' \<and> (\<exists>e. py_int (kolichestvo w) = Inl e)"
  proof -
    from that have "\<exists>w \<in> set (matched (h r) ws). \<exists>e. policy w = Inl e"
      by (auto simp: policy_Inl_iff)
    then have "\<exists>h' e. create_stocks h ws r = (h', Inl e)
        \<and> (\<exists>w \<in> set (matched (h r) ws). policy w = Inl e)"
      by (rule create_stocks_fail [where h = h])
    with run show ?thesis by auto
  qed
  have 4: "\<forall>t e. py_int (PyStr t) = Inl e \<longrightarrow> e = ValueError"
    using int_of_str_error by simp
  have 5: "\<forall>n. length (str_nat n) \<le> 4300 \<longrightarrow> py_int (PyStr (str_nat n)) = Inr (int n)"
    "\<forall>n. 4300 < length (str_nat n) \<longrightarrow> py_int (PyStr (str_nat n)) = Inl ValueError"
    by (simp_all only: py_int_str_nat) simp_all
  note 8 = py_int_too_long
  have 6: "distinct (map sku ws) \<longrightarrow> matched (h r) ws = filter (\<lambda>w. sku w \<in> set (h r)) ws"
    using matched_filter by blast
  note 7 = int_of_str_examples
  from 1 2 3 4 5 6 7 8 show ?thesis by blast
qed

lemma example_run:
  "snd (create_stocks (store_of [PyStr ''123'', PyStr ''124'', PyStr ''126'']) example_remnants 0)
     = Inr [\<lparr>s_offer_id = PyStr ''123'', stock = 100\<rparr>, \<lparr>s_offer_id = PyStr ''124'', stock = 0\<rparr>,
            \<lparr>s_offer_id = PyStr ''126'', stock = 0\<rparr>]"
  by (simp add: create_stocks_def store_of_def example_remnants_def stocks_loop.simps)

lemma example_matched:
  "matched [PyStr ''123'', PyStr ''124'', PyStr ''126''] example_remnants = take 2 example_remnants"
  by (simp add: example_remnants_def sku_def)

lemma example_run_125:
  "snd (create_stocks (store_of [PyStr ''123'', PyStr ''124'', PyStr ''125'', PyStr ''126''])
          example_remnants 0)
     = Inr [\<lparr>s_offer_id = PyStr ''123'', stock = 100\<rparr>, \<lparr>s_offer_id = PyStr ''124'', stock = 0\<rparr>,
            \<lparr>s_offer_id = PyStr ''125'', stock = 5\<rparr>, \<lparr>s_offer_id = PyStr ''126'', stock = 0\<rparr>]"
  by (simp add: create_stocks_def store_of_def example_remnants_def stocks_loop.simps
      int_of_str_def py_strip_def py_isspace_def unsigned_val_def is_digit_def digit_val_def)

lemma example_matched_125:
  "matched [PyStr ''123'', PyStr ''124'', PyStr ''125'', PyStr ''126''] example_remnants
     = example_remnants"
  by (simp add: example_remnants_def sku_def)

lemma unreadable_matched: "matched [PyStr ''7''] unreadable_remnants = unreadable_remnants"
  by (simp add: unreadable_remnants_def sku_def)

lemma unreadable_quantity:
  "w \<in> set unreadable_remnants \<Longrightarrow>
   py_str (kolichestvo w) \<noteq> ''>10'' \<and> py_str (kolichestvo w) \<noteq> ''1''
   \<and> py_int (kolichestvo w) = Inl ValueError"
  by (simp add: unreadable_remnants_def int_of_str_def py_strip_def py_isspace_def
      unsigned_val_def is_digit_def)

theorem create_stocks_stock_policy_witness:
  "create_stocks (store_of [PyStr ''123'', PyStr ''124'', PyStr ''125'', PyStr ''126''])
       example_remnants 0
     = (fst (create_stocks (store_of [PyStr ''123'', PyStr ''124'', PyStr ''125'', PyStr ''126''])
               example_remnants 0),
        Inr [\<lparr>s_offer_id = PyStr ''123'', stock = 100\<rparr>, \<lparr>s_offer_id = PyStr ''124'', stock = 0\<rparr>,
             \<lparr>s_offer_id = PyStr ''125'', stock = 5\<rparr>, \<lparr>s_offer_id = PyStr ''126'', stock = 0\<rparr>])
   \<and> list_all2 (\<lambda>w e. s_offer_id e = sku w
             \<and> (if py_str (kolichestvo w) = ''>10'' then stock e = 100
                else if py_str (kolichestvo w) = ''1'' then stock e = 0
                else py_int (kolichestvo w) = Inr (stock e)))
          example_remnants
          [\<lparr>s_offer_id = PyStr ''123'', stock = 100\<rparr>, \<lparr>s_offer_id = PyStr ''124'', stock = 0\<rparr>,
           \<lparr>s_offer_id = PyStr ''125'', stock = 5\<rparr>]
   \<and> snd (create_stocks (store_of [PyStr ''7'']) unreadable_remnants 0) = Inl ValueError"
proof -
  let ?H = "store_of [PyStr ''123'', PyStr ''124'', PyStr ''125'', PyStr ''126'']"
  let ?out = "[\<lparr>s_offer_id = PyStr ''123'', stock = 100\<rparr>, \<lparr>s_offer_id = PyStr ''124'', stock = 0\<rparr>,
             \<lparr>s_offer_id = PyStr ''125'', stock = 5\<rparr>, \<lparr>s_offer_id = PyStr ''126'', stock = 0\<rparr>]"
  let ?P = "\<lambda>w e. s_offer_id e = sku w
             \<and> (if py_str (kolichestvo w) = ''>10'' then stock e = 100
                else if py_str (kolichestvo w) = ''1'' then stock e = 0
                else py_int (kolichestvo w) = Inr (stock e))"
  have run: "create_stocks ?H example_remnants 0 = (fst (create_stocks ?H example_remnants 0), Inr ?out)"
    using example_run_125 by (metis prod.collapse)
  have m: "matched (?H 0) example_remnants = example_remnants"
    using example_matched_125 by (simp add: store_of_def)
  note inst = create_stocks_stock_policy [OF run]
  from inst [THEN conjunct1]
  have "list_all2 ?P (matched (?H 0) example_remnants)
          (take (length (matched (?H 0) example_remnants)) ?out)"
    by simp
  then have a: "list_all2 ?P example_remnants
          [\<lparr>s_offer_id = PyStr ''123'', stock = 100\<rparr>, \<lparr>s_offer_id = PyStr ''124'', stock = 0\<rparr>,
           \<lparr>s_offer_id = PyStr ''125'', stock = 5\<rparr>]"
    unfolding m by (simp add: example_remnants_def)
  let ?B = "store_of [PyStr ''7'']"
  let ?res = "snd (create_stocks ?B unreadable_remnants 0)"
  have run2: "create_stocks ?B unreadable_remnants 0
      = (fst (create_stocks ?B unreadable_remnants 0), ?res)"
    by simp
  have m2: "matched (?B 0) unreadable_remnants = unreadable_remnants"
    using unreadable_matched by (simp add: store_of_def)
  note inst2 = create_stocks_stock_policy [OF run2]
  have bad: "\<exists>w \<in> set (matched (?B 0) unreadable_remnants).
      py_str (kolichestvo w) \<noteq> ''>10'' \<and> py_str (kolichestvo w) \<noteq> ''1''
      \<and> (\<exists>e. py_int (kolichestvo w) = Inl e)"
    unfolding m2 using unreadable_quantity by (auto simp: unreadable_remnants_def)
  from inst2 [THEN conjunct2, THEN conjunct2, THEN conjunct1] bad
  obtain e where e: "?res = Inl e" by blast
  from inst2 [THEN conjunct2, THEN conjunct1] e
  obtain w where "w \<in> set (matched (?B 0) unreadable_remnants)" "py_int (kolichestvo w) = Inl e"
    by blast
  with unreadable_quantity [of w] have "e = ValueError" unfolding m2 by simp
  with e have b: "?res = Inl ValueError" by simp
  from run a b show ?thesis by blast
qed

lemma stock_entry_sel: "s_offer_id (stock_entry w) = sku w"
  by (simp add: stock_entry_def)

text \<open>
  C4. When create_stocks returns, the SKUs of its output are the SKU list as a multiset
  (each list entry exactly once, so a duplicate-free list gives a duplicate-free output),
  an entry whose SKU no record carries has stock 0, and the output is the entries of the
  matched records in record order followed by the SKUs no record has taken, in list order,
  each with stock 0.
\<close>

theorem create_stocks_every_sku_once:
  "create_stocks h ws r = (h', Inr out) \<Longrightarrow>
     mset (map s_offer_id out) = mset (h r)
   \<and> (distinct (h r) \<longrightarrow> distinct (map s_offer_id out))
   \<and> (\<forall>e \<in> set out. s_offer_id e \<notin> sku ` set ws \<longrightarrow> stock e = 0)
   \<and> map s_offer_id out = map sku (matched (h r) ws) @ remaining (h r) ws
   \<and> (\<forall>e \<in> set (drop (length (matched (h r) ws)) out). stock e = 0)
   \<and> subseq (matched (h r) ws) ws
   \<and> subseq (remaining (h r) ws) (h r)
   \<and> mset (remaining (h r) ws) = mset (h r) - mset (map sku ws)"
proof -
  assume run: "create_stocks h ws r = (h', Inr out)"
  let ?ms = "matched (h r) ws" and ?rest = "remaining (h r) ws"
  from create_stocks_Inr [OF run]
  have out: "out = map stock_entry ?ms @ map (\<lambda>i. \<lparr>s_offer_id = i, stock = 0\<rparr>) ?rest"
    by simp
  have ids: "map s_offer_id out = map sku ?ms @ ?rest"
    by (simp add: out stock_entry_sel comp_def)
  have 1: "mset (map s_offer_id out) = mset (h r)"
    using mset_matched_remaining [of "h r" ws] by (simp add: ids)
  have 2: "distinct (h r) \<longrightarrow> distinct (map s_offer_id out)"
    using 1 mset_eq_imp_distinct_iff by blast
  have 3: "\<forall>e \<in> set out. s_offer_id e \<notin> sku ` set ws \<longrightarrow> stock e = 0"
  proof (intro ballI impI)
    fix e assume e: "e \<in> set out" and no: "s_offer_id e \<notin> sku ` set ws"
    have "e \<notin> set (map stock_entry ?ms)"
    proof
      assume "e \<in> set (map stock_entry ?ms)"
      then obtain w where "w \<in> set ?ms" "e = stock_entry w" by auto
      then have "w \<in> set ws" "s_offer_id e = sku w"
        using matched_sku_subset by (auto simp: stock_entry_sel)
      with no show False by blast
    qed
    with e show "stock e = 0" by (auto simp: out)
  qed
  have 5: "\<forall>e \<in> set (drop (length ?ms) out). stock e = 0"
    by (auto simp: out)
  show ?thesis
    using 1 2 3 ids 5 subseq_matched subseq_remaining mset_remaining by blast
qed

theorem create_stocks_every_sku_once_witness:
  "create_stocks (store_of [PyStr ''123'', PyStr ''124'', PyStr ''126'']) example_remnants 0
     = (fst (create_stocks (store_of [PyStr ''123'', PyStr ''124'', PyStr ''126'']) example_remnants 0),
        Inr [\<lparr>s_offer_id = PyStr ''123'', stock = 100\<rparr>, \<lparr>s_offer_id = PyStr ''124'', stock = 0\<rparr>,
             \<lparr>s_offer_id = PyStr ''126'', stock = 0\<rparr>])
   \<and> mset [PyStr ''123'', PyStr ''124'', PyStr ''126'']
        = mset (store_of [PyStr ''123'', PyStr ''124'', PyStr ''126''] 0)
   \<and> remaining [PyStr ''123'', PyStr ''124'', PyStr ''126''] example_remnants = [PyStr ''126'']"
proof -
  let ?H = "store_of [PyStr ''123'', PyStr ''124'', PyStr ''126'']"
  let ?out = "[\<lparr>s_offer_id = PyStr ''123'', stock = 100\<rparr>, \<lparr>s_offer_id = PyStr ''124'', stock = 0\<rparr>,
             \<lparr>s_offer_id = PyStr ''126'', stock = 0\<rparr>]"
  have run: "create_stocks ?H example_remnants 0 = (fst (create_stocks ?H example_remnants 0), Inr ?out)"
    using example_run by (metis prod.collapse)
  from create_stocks_every_sku_once [OF run]
  have "mset (map s_offer_id ?out) = mset (?H 0)"
    and "map s_offer_id ?out = map sku (matched (?H 0) example_remnants) @ remaining (?H 0) example_remnants"
    by blast+
  then have "mset [PyStr ''123'', PyStr ''124'', PyStr ''126''] = mset (?H 0)"
    and "remaining [PyStr ''123'', PyStr ''124'', PyStr ''126''] example_remnants = [PyStr ''126'']"
    by (simp_all add: store_of_def example_matched) (simp add: example_remnants_def sku_def)
  with run show ?thesis by blast
qed

declare prices_loop.simps(2) [simp del]

lemma prices_loop_skip:
  "sku w \<notin> set (h r) \<Longrightarrow> prices_loop (w # ws) r h acc = prices_loop ws r h acc"
  by (simp add: sku_def prices_loop.simps)

lemma prices_loop_step:
  "sku w \<in> set (h r) \<Longrightarrow> tsena w = PyStr s \<Longrightarrow>
   prices_loop (w # ws) r h acc = prices_loop ws r h (acc @ [price_entry w])"
  by (simp add: sku_def prices_loop.simps price_entry_def price_conversion_str
      del: price_conversion.simps)

lemma prices_loop_raise:
  "sku w \<in> set (h r) \<Longrightarrow> \<forall>s. tsena w \<noteq> PyStr s \<Longrightarrow>
   prices_loop (w # ws) r h acc = Inl AttributeError"
  by (cases "tsena w") (simp_all add: sku_def prices_loop.simps)

lemma prices_loop_ok:
  "\<forall>w \<in> set ws. sku w \<in> set (h r) \<longrightarrow> (\<exists>s. tsena w = PyStr s) \<Longrightarrow>
   prices_loop ws r h acc = Inr (acc @ map price_entry (filter (\<lambda>w. sku w \<in> set (h r)) ws))"
proof (induction ws arbitrary: acc)
  case Nil
  show ?case by simp
next
  case (Cons w ws)
  show ?case
  proof (cases "sku w \<in> set (h r)")
    case False
    with Cons show ?thesis by (simp add: prices_loop_skip)
  next
    case True
    with Cons.prems obtain s where "tsena w = PyStr s" by auto
    with True Cons show ?thesis by (simp add: prices_loop_step)
  qed
qed

lemma prices_loop_fail:
  "\<exists>w \<in> set ws. sku w \<in> set (h r) \<and> (\<forall>s. tsena w \<noteq> PyStr s) \<Longrightarrow>
   prices_loop ws r h acc = Inl AttributeError"
proof (induction ws arbitrary: acc)
  case Nil
  then show ?case by simp
next
  case (Cons w ws)
  show ?case
  proof (cases "sku w \<in> set (h r)")
    case False
    with Cons show ?thesis by (simp add: prices_loop_skip)
  next
    case True
    show ?thesis
    proof (cases "\<exists>s. tsena w = PyStr s")
      case ok: True
      then obtain s where s: "tsena w = PyStr s" by blast
      with Cons.prems have "\<exists>w \<in> set ws. sku w \<in> set (h r) \<and> (\<forall>s. tsena w \<noteq> PyStr s)"
        by auto
      with Cons.IH True s show ?thesis by (simp add: prices_loop_step)
    next
      case False
      with True show ?thesis by (simp add: prices_loop_raise)
    qed
  qed
qed

text \<open>
  C10. create_prices emits one price update for every record whose SKU is in the SKU list,
  in record order; the list is only read, so records that share a matching SKU all pass.
  Every update has \<open>old_price\<close> \<^verbatim>\<open>"0"\<close>, \<open>currency_code\<close> \<^verbatim>\<open>"RUB"\<close>, \<open>auto_action_enabled\<close>
  \<^verbatim>\<open>"UNKNOWN"\<close> and as price the price text cut at the first \<^verbatim>\<open>"."\<close> with everything but
  digits deleted. This holds when the price cell of every such record is text; a price
  cell that is not text makes the call raise \<^verbatim>\<open>AttributeError\<close>.
\<close>

theorem create_prices_membership_only:
  "((\<forall>w \<in> set ws. sku w \<in> set (h r) \<longrightarrow> (\<exists>s. tsena w = PyStr s)) \<longrightarrow>
      create_prices h ws r
        = Inr (map (\<lambda>w. \<lparr>auto_action_enabled = ''UNKNOWN'', currency_code = ''RUB'',
                          p_offer_id = sku w, old_price = ''0'',
                          price = filter is_digit (takeWhile (\<lambda>c. c \<noteq> CHR ''.'') (py_str (tsena w)))\<rparr>)
                 (filter (\<lambda>w. sku w \<in> set (h r)) ws)))
   \<and> ((\<exists>w \<in> set ws. sku w \<in> set (h r) \<and> (\<forall>s. tsena w \<noteq> PyStr s)) \<longrightarrow>
      create_prices h ws r = Inl AttributeError)"
  using prices_loop_ok [of ws h r "[]"] prices_loop_fail [of ws h r "[]"]
  by (simp add: create_prices_def price_entry_def)

lemma create_prices_after_create_stocks:
  assumes "distinct (h r)" and "create_stocks h ws r = (h', Inr out)"
  shows "create_prices h' ws r = Inr []"
proof -
  from create_stocks_Inr [OF assms(2)] have h': "h' r = remaining (h r) ws" by simp
  have "\<forall>w \<in> set ws. sku w \<notin> set (h' r)"
    using remaining_distinct [OF assms(1), of ws] h' by auto
  then have "filter (\<lambda>w. sku w \<in> set (h' r)) ws = []" by (simp add: filter_empty_conv)
  moreover have "\<forall>w \<in> set ws. sku w \<in> set (h' r) \<longrightarrow> (\<exists>s. tsena w = PyStr s)"
    using \<open>\<forall>w \<in> set ws. sku w \<notin> set (h' r)\<close> by blast
  ultimately show ?thesis
    using prices_loop_ok [of ws h' r "[]"] by (simp add: create_prices_def)
qed



theorem create_prices_membership_only_witness:
  "create_prices (store_of [PyStr ''123'']) duplicate_remnants 0
       = Inr [\<lparr>auto_action_enabled = ''UNKNOWN'', currency_code = ''RUB'', p_offer_id = PyStr ''123'',
               old_price = ''0'', price = ''5000''\<rparr>,
              \<lparr>auto_action_enabled = ''UNKNOWN'', currency_code = ''RUB'', p_offer_id = PyStr ''123'',
               old_price = ''0'', price = ''7000''\<rparr>]"
proof -
  have h: "\<forall>w \<in> set duplicate_remnants. sku w \<in> set (store_of [PyStr ''123''] 0) \<longrightarrow> (\<exists>s. tsena w = PyStr s)"
    by (simp add: duplicate_remnants_def)
  with create_prices_membership_only [of duplicate_remnants "store_of [PyStr ''123'']" 0]
  have "create_prices (store_of [PyStr ''123'']) duplicate_remnants 0
        = Inr (map (\<lambda>w. \<lparr>auto_action_enabled = ''UNKNOWN'', currency_code = ''RUB'',
                          p_offer_id = sku w, old_price = ''0'',
                          price = filter is_digit (takeWhile (\<lambda>c. c \<noteq> CHR ''.'') (py_str (tsena w)))\<rparr>)
                 (filter (\<lambda>w. sku w \<in> set (store_of [PyStr ''123''] 0)) duplicate_remnants))"
    by blast
  then have "create_prices (store_of [PyStr ''123'']) duplicate_remnants 0
       = Inr [\<lparr>auto_action_enabled = ''UNKNOWN'', currency_code = ''RUB'', p_offer_id = PyStr ''123'',
               old_price = ''0'', price = ''5000''\<rparr>,
              \<lparr>auto_action_enabled = ''UNKNOWN'', currency_code = ''RUB'', p_offer_id = PyStr ''123'',
               old_price = ''0'', price = ''7000''\<rparr>]"
    by (simp add: duplicate_remnants_def store_of_def sku_def is_digit_def str_nat.simps)
  then show ?thesis .
qed

text \<open>
  C2. The specification has create_stocks remove the matched SKUs from a working copy, so
  that the caller's SKU list is unchanged after the call. The code has no copy: the list
  object the caller passes is the one \<^verbatim>\<open>remove\<close> works on. With the one
  SKU \<^verbatim>\<open>"123"\<close> and one record for it, the caller's list is empty after the call, so
  create_prices on the same list returns nothing, while on the list as it was fetched it
  returns the price update for \<^verbatim>\<open>"123"\<close>.
\<close>

theorem create_stocks_removes_from_callers_list:
  "store_of [PyStr ''123''] 0 = [PyStr ''123'']
   \<and> fst (create_stocks (store_of [PyStr ''123''])
        [\<lparr>kod = PyStr ''123'', kolichestvo = PyStr ''5'', tsena = PyStr ''5000.00''\<rparr>] 0) 0 = []
   \<and> snd (create_stocks (store_of [PyStr ''123''])
        [\<lparr>kod = PyStr ''123'', kolichestvo = PyStr ''5'', tsena = PyStr ''5000.00''\<rparr>] 0)
      = Inr [\<lparr>s_offer_id = PyStr ''123'', stock = 5\<rparr>]
   \<and> create_prices (fst (create_stocks (store_of [PyStr ''123''])
        [\<lparr>kod = PyStr ''123'', kolichestvo = PyStr ''5'', tsena = PyStr ''5000.00''\<rparr>] 0))
        [\<lparr>kod = PyStr ''123'', kolichestvo = PyStr ''5'', tsena = PyStr ''5000.00''\<rparr>] 0 = Inr []
   \<and> create_prices (store_of [PyStr ''123''])
        [\<lparr>kod = PyStr ''123'', kolichestvo = PyStr ''5'', tsena = PyStr ''5000.00''\<rparr>] 0
      = Inr [\<lparr>auto_action_enabled = ''UNKNOWN'', currency_code = ''RUB'', p_offer_id = PyStr ''123'',
               old_price = ''0'', price = ''5000''\<rparr>]"
  by (simp add: create_stocks_def create_prices_def store_of_def stocks_loop.simps prices_loop.simps
      int_of_str_def py_strip_def py_isspace_def unsigned_val_def is_digit_def digit_val_def
      re_sub_non_digits_def)

section \<open>Properties of get_offer_ids\<close>

lemma loop_goes_on:
  "goes_on api k \<Longrightarrow>
   offer_ids_loop api k (cursor_at api k) (accumulated api k) (requests api k)
   = offer_ids_loop api (Suc k) (cursor_at api (Suc k)) (accumulated api (Suc k)) (requests api (Suc k))"
  by (subst offer_ids_loop.simps)
     (auto simp: goes_on_def answer_items_def total_reached_def answer_def requests_def
           split: sum.splits option.splits)

lemma loop_unroll:
  "\<forall>j<n. goes_on api j \<Longrightarrow>
   offer_ids_loop api 0 (PyStr []) [] []
   = offer_ids_loop api n (cursor_at api n) (accumulated api n) (requests api n)"
proof (induction n)
  case 0
  show ?case by (simp add: requests_def)
next
  case (Suc n)
  then have "offer_ids_loop api 0 (PyStr []) [] []
      = offer_ids_loop api n (cursor_at api n) (accumulated api n) (requests api n)"
    by simp
  also have "\<dots> = offer_ids_loop api (Suc n) (cursor_at api (Suc n)) (accumulated api (Suc n))
      (requests api (Suc n))"
    using Suc.prems by (intro loop_goes_on) simp
  finally show ?case .
qed

lemma loop_reached:
  "total_reached api k \<Longrightarrow>
   offer_ids_loop api k (cursor_at api k) (accumulated api k) (requests api k)
   = Some (requests api (Suc k), Inr (accumulated api (Suc k)))"
  by (subst offer_ids_loop.simps)
     (auto simp: answer_items_def total_reached_def answer_def requests_def
           split: sum.splits option.splits)

lemma loop_failure:
  "failure_at api k = Some e \<Longrightarrow>
   offer_ids_loop api k (cursor_at api k) (accumulated api k) (requests api k)
   = Some (requests api (Suc k), Inl e)"
  by (subst offer_ids_loop.simps)
     (auto simp: failure_at_def answer_def requests_def split: sum.splits option.splits)

lemma step_cases: "goes_on api k \<or> total_reached api k \<or> (\<exists>e. failure_at api k = Some e)"
  by (auto simp: goes_on_def total_reached_def failure_at_def answer_items_def
           split: sum.splits option.splits)

lemma step_exclusive:
  "\<not> (goes_on api k \<and> total_reached api k)"
  "\<not> (goes_on api k \<and> failure_at api k = Some e)"
  "\<not> (total_reached api k \<and> failure_at api k = Some e)"
  by (auto simp: goes_on_def total_reached_def failure_at_def answer_items_def
           split: sum.splits option.splits)

lemma loop_never:
  assumes "\<forall>k. goes_on api k"
  shows "offer_ids_loop api k (cursor_at api k) (accumulated api k) evs = None"
proof -
  have aux: "api' = api \<longrightarrow> c = cursor_at api k \<longrightarrow> pl = accumulated api k \<longrightarrow> False"
    if "offer_ids_loop api' k c pl evs = Some y" for api' k c pl evs y
  proof (rule offer_ids_loop.raw_induct
      [where P = "\<lambda>api' k c pl evs y.
         api' = api \<longrightarrow> c = cursor_at api k \<longrightarrow> pl = accumulated api k \<longrightarrow> False", OF _ that],
      goal_cases)
    case (1 f api' k c pl evs y)
    show ?case
    proof (intro impI)
      assume eq: "api' = api" "c = cursor_at api k" "pl = accumulated api k"
      have g: "goes_on api k" using assms by blast
      then obtain p its where p: "api k (cursor_at api k) = Inr (Some p)" "items p = Some its"
        "total' p \<noteq> PyInt (int (length (accumulated api k @ its)))"
        by (auto simp: goes_on_def answer_items_def total_reached_def answer_def
                 split: sum.splits option.splits)
      with 1(2) eq
      have "f api (Suc k) (last_id p) (accumulated api k @ its) (evs @ [ListProducts c]) = Some y"
        by simp
      moreover have "last_id p = cursor_at api (Suc k)" using p by simp
      moreover have "accumulated api k @ its = accumulated api (Suc k)"
        using p by (simp add: answer_items_def answer_def)
      ultimately show False using 1(1) by blast
    qed
  qed
  show ?thesis
  proof (cases "offer_ids_loop api k (cursor_at api k) (accumulated api k) evs")
    case None
    then show ?thesis .
  next
    case (Some y)
    from aux [OF this] show ?thesis by simp
  qed
qed

lemma get_offer_ids_reached:
  assumes "\<forall>j<n. goes_on api j" and "total_reached api n"
  shows "get_offer_ids api = Some (requests api (Suc n), Inr (map offer_id (accumulated api (Suc n))))"
  using loop_unroll [OF assms(1)] loop_reached [OF assms(2)]
  by (simp add: get_offer_ids_def)

lemma get_offer_ids_failure:
  assumes "\<forall>j<n. goes_on api j" and "failure_at api n = Some e"
  shows "get_offer_ids api = Some (requests api (Suc n), Inl e)"
  using loop_unroll [OF assms(1)] loop_failure [OF assms(2)]
  by (simp add: get_offer_ids_def)

lemma get_offer_ids_never:
  assumes "\<forall>k. goes_on api k"
  shows "get_offer_ids api = None"
  using loop_never [OF assms, of 0 "[]"] by (simp add: get_offer_ids_def)

lemma first_stop:
  assumes "\<not> (\<forall>k. goes_on api k)"
  shows "\<exists>n. (\<forall>j<n. goes_on api j) \<and> (total_reached api n \<or> (\<exists>e. failure_at api n = Some e))"
proof -
  from assms obtain k where "\<not> goes_on api k" by blast
  then obtain n where n: "\<not> goes_on api n" "\<forall>j<n. goes_on api j"
    using exists_least_iff [of "\<lambda>k. \<not> goes_on api k"] by blast
  with step_cases [of api n] show ?thesis by blast
qed

lemma get_offer_ids_cases:
  "(get_offer_ids api = None \<and> (\<forall>k. goes_on api k))
   \<or> (\<exists>n. (\<forall>j<n. goes_on api j) \<and> total_reached api n
        \<and> get_offer_ids api = Some (requests api (Suc n), Inr (map offer_id (accumulated api (Suc n)))))
   \<or> (\<exists>n e. (\<forall>j<n. goes_on api j) \<and> failure_at api n = Some e
        \<and> get_offer_ids api = Some (requests api (Suc n), Inl e))"
proof (cases "\<forall>k. goes_on api k")
  case True
  with get_offer_ids_never show ?thesis by blast
next
  case False
  from first_stop [OF this] obtain n where
    n: "\<forall>j<n. goes_on api j" "total_reached api n \<or> (\<exists>e. failure_at api n = Some e)"
    by blast
  from n(2) show ?thesis
  proof
    assume "total_reached api n"
    with n(1) get_offer_ids_reached show ?thesis by blast
  next
    assume "\<exists>e. failure_at api n = Some e"
    with n(1) get_offer_ids_failure show ?thesis by blast
  qed
qed

text \<open>
  C7. get_offer_ids requests page after page, each request carrying the cursor of the
  answer before, and collects the items. It returns exactly when the number of collected
  items equals the \<open>total\<close> of the answer just read: if that first happens at the answer
  \<open>n\<close>, it returns after \<open>n + 1\<close> requests with the SKUs of all collected items, and if
  it returns, there is such an answer. If every answer is a page and the count never
  equals the total, the call never returns (and only then). An answer that makes the script
  raise ends the call with that exception.
\<close>

theorem get_offer_ids_returns_iff_total_reached:
  "((\<forall>j<n. goes_on api j) \<and> total_reached api n \<longrightarrow>
      get_offer_ids api = Some (requests api (Suc n), Inr (map offer_id (accumulated api (Suc n)))))
   \<and> ((\<exists>evs ids. get_offer_ids api = Some (evs, Inr ids)) \<longrightarrow>
        (\<exists>m. (\<forall>j<m. goes_on api j) \<and> total_reached api m))
   \<and> ((\<forall>k. goes_on api k) \<longrightarrow> get_offer_ids api = None)
   \<and> (get_offer_ids api = None \<longrightarrow> (\<forall>k. goes_on api k))
   \<and> ((\<forall>j<n. goes_on api j) \<and> failure_at api n = Some e \<longrightarrow>
        get_offer_ids api = Some (requests api (Suc n), Inl e))"
proof -
  have 2: "\<exists>m. (\<forall>j<m. goes_on api j) \<and> total_reached api m"
    if "\<exists>evs ids. get_offer_ids api = Some (evs, Inr ids)"
    using get_offer_ids_cases [of api] that by auto
  have 4: "\<forall>k. goes_on api k" if "get_offer_ids api = None"
    using get_offer_ids_cases [of api] that by auto
  show ?thesis
    using get_offer_ids_reached get_offer_ids_failure get_offer_ids_never 2 4 by blast
qed

lemma example_api_steps:
  "goes_on example_api 0" "total_reached example_api 1"
  by (simp_all add: goes_on_def total_reached_def answer_items_def answer_def example_api_def)

lemma stalled_accumulated: "accumulated stalled_api k = []"
  by (induction k) (simp_all add: answer_items_def answer_def stalled_api_def)

lemma stalled_goes_on: "goes_on stalled_api k"
  using stalled_accumulated [of k]
  by (simp add: goes_on_def total_reached_def answer_items_def answer_def stalled_api_def)

theorem get_offer_ids_returns_iff_total_reached_witness:
  "goes_on example_api 0 \<and> total_reached example_api 1
   \<and> get_offer_ids example_api
       = Some ([ListProducts (PyStr []), ListProducts (PyStr ''a'')],
               Inr [PyStr ''123'', PyStr ''124'', PyStr ''126''])
   \<and> (\<forall>k. goes_on stalled_api k) \<and> get_offer_ids stalled_api = None"
proof -
  have a: "goes_on example_api 0 \<and> total_reached example_api 1"
    using example_api_steps by simp
  then have "(\<forall>j<1. goes_on example_api j) \<and> total_reached example_api 1"
    by simp
  with get_offer_ids_returns_iff_total_reached [of 1 example_api]
  have "get_offer_ids example_api
      = Some (requests example_api (Suc 1), Inr (map offer_id (accumulated example_api (Suc 1))))"
    by blast
  then have b: "get_offer_ids example_api
       = Some ([ListProducts (PyStr []), ListProducts (PyStr ''a'')],
               Inr [PyStr ''123'', PyStr ''124'', PyStr ''126''])"
    by (simp add: requests_def answer_items_def answer_def example_api_def)
  have c: "\<forall>k. goes_on stalled_api k" using stalled_goes_on by blast
  with get_offer_ids_returns_iff_total_reached [of 0 stalled_api]
  have "get_offer_ids stalled_api = None" by blast
  with a b c show ?thesis by blast
qed


section \<open>Properties of the top-level run\<close>

lemma update_loop_all_ok:
  "\<forall>i<length bs. api (k + i) (bs ! i) = None \<Longrightarrow> update_loop api ev k bs = (map ev bs, None)"
proof (induction bs arbitrary: k)
  case Nil
  show ?case by simp
next
  case (Cons b bs)
  have "api k b = None" using Cons.prems by force
  moreover have "\<forall>i<length bs. api (Suc k + i) (bs ! i) = None"
  proof (intro allI impI)
    fix i assume "i < length bs"
    then have "api (k + Suc i) ((b # bs) ! Suc i) = None" using Cons.prems by force
    then show "api (Suc k + i) (bs ! i) = None" by simp
  qed
  ultimately show ?case using Cons.IH [of "Suc k"] by simp
qed

lemma update_loop_first_failure:
  "i < length bs \<Longrightarrow> \<forall>j<i. api (k + j) (bs ! j) = None \<Longrightarrow> api (k + i) (bs ! i) = Some e \<Longrightarrow>
   update_loop api ev k bs = (map ev (take (Suc i) bs), Some e)"
proof (induction bs arbitrary: k i)
  case Nil
  then show ?case by simp
next
  case (Cons b bs)
  show ?case
  proof (cases i)
    case 0
    with Cons.prems show ?thesis by simp
  next
    case (Suc i')
    have b: "api k b = None" using Cons.prems(2) Suc by force
    have "\<forall>j<i'. api (Suc k + j) (bs ! j) = None"
    proof (intro allI impI)
      fix j assume "j < i'"
      then have "api (k + Suc j) ((b # bs) ! Suc j) = None" using Cons.prems(2) Suc by force
      then show "api (Suc k + j) (bs ! j) = None" by simp
    qed
    moreover have "api (Suc k + i') (bs ! i') = Some e" using Cons.prems(3) Suc by simp
    moreover have "i' < length bs" using Cons.prems(1) Suc by simp
    ultimately have "update_loop api ev (Suc k) bs = (map ev (take (Suc i') bs), Some e)"
      using Cons.IH by blast
    with b Suc show ?thesis by simp
  qed
qed

lemma update_loop_cases:
  "(update_loop api ev k bs = (map ev bs, None) \<and> (\<forall>i<length bs. api (k + i) (bs ! i) = None))
   \<or> (\<exists>i e. i < length bs \<and> (\<forall>j<i. api (k + j) (bs ! j) = None) \<and> api (k + i) (bs ! i) = Some e
        \<and> update_loop api ev k bs = (map ev (take (Suc i) bs), Some e))"
proof (cases "\<forall>i<length bs. api (k + i) (bs ! i) = None")
  case True
  with update_loop_all_ok [OF True] show ?thesis by blast
next
  case False
  then have "\<exists>i. i < length bs \<and> api (k + i) (bs ! i) \<noteq> None" by blast
  then obtain i where i: "i < length bs \<and> api (k + i) (bs ! i) \<noteq> None"
    "\<forall>j<i. \<not> (j < length bs \<and> api (k + j) (bs ! j) \<noteq> None)"
    using exists_least_iff [of "\<lambda>i. i < length bs \<and> api (k + i) (bs ! i) \<noteq> None"] by blast
  then obtain e where e: "api (k + i) (bs ! i) = Some e" by blast
  have "\<forall>j<i. api (k + j) (bs ! j) = None" using i by force
  with i e update_loop_first_failure [of i bs api k e ev] show ?thesis by blast
qed

lemma update_loop_prefix:
  "update_loop api ev k bs = (evs, r) \<Longrightarrow> \<exists>m. evs = map ev (take m bs)"
  using update_loop_cases [of api ev k bs] by (metis fst_conv take_all order_refl)

lemma sorted_phases:
  assumes "d = [] \<or> d = [DownloadStock]" and "pr = [] \<or> (\<exists>x. pr = [Print x])"
  shows "sorted (map phase (requests api n @ d @ map UpdateStocks ss @ map UpdatePrice ps @ pr))"
proof -
  have 1: "\<forall>x \<in> set (map phase (requests api n)). x = 0" by (auto simp: requests_def)
  have 2: "\<forall>x \<in> set (map phase d). x = 1" using assms(1) by auto
  have 3: "\<forall>x \<in> set (map phase (map UpdateStocks ss)). x = 2" by auto
  have 4: "\<forall>x \<in> set (map phase (map UpdatePrice ps)). x = 3" by auto
  have 5: "\<forall>x \<in> set (map phase pr). x = 4" using assms(2) by auto
  have c: "sorted xs" if "\<forall>x \<in> set xs. x = c" for xs :: "nat list" and c
    using that by (induction xs) auto
  show ?thesis
    unfolding map_append sorted_append
    using 1 2 3 4 5 c [OF 1] c [OF 2] c [OF 3] c [OF 4] c [OF 5]
    by (auto simp del: map_map)
qed

lemma divide_list_lengths:
  "0 < n \<Longrightarrow> divide_list xs n = Inr chunks \<Longrightarrow> b \<in> set chunks \<Longrightarrow>
   1 \<le> length b \<and> int (length b) \<le> n"
proof -
  assume n: "0 < n" and d: "divide_list xs n = Inr chunks" and b: "b \<in> set chunks"
  from n d have "chunks = divide_from xs (nat n) 0" by (simp add: divide_list_def)
  with b divide_from_lengths [of "nat n" b xs 0] n show ?thesis by auto
qed

lemma divide_list_positive: "0 < n \<Longrightarrow> \<exists>chunks. divide_list xs n = Inr chunks \<and> concat chunks = xs"
  using concat_divide_from [of "nat n" xs 0] by (simp add: divide_list_def)

lemma chunks_100:
  assumes "divide_list xs 100 = Inr chunks"
  shows "\<forall>b \<in> set (take m chunks). 1 \<le> length b \<and> length b \<le> 100"
proof
  fix b assume "b \<in> set (take m chunks)"
  then have "b \<in> set chunks" by (rule in_set_takeD)
  from divide_list_lengths [OF _ assms this] show "1 \<le> length b \<and> length b \<le> 100" by simp
qed

lemma chunks_900:
  assumes "divide_list xs 900 = Inr chunks"
  shows "\<forall>b \<in> set (take m chunks). 1 \<le> length b \<and> length b \<le> 900"
proof
  fix b assume "b \<in> set (take m chunks)"
  then have "b \<in> set chunks" by (rule in_set_takeD)
  from divide_list_lengths [OF _ assms this] show "1 \<le> length b \<and> length b \<le> 900" by simp
qed

lemma ex_chunks_100: "\<exists>chunks. divide_list xs 100 = Inr chunks \<and> concat chunks = xs"
  by (rule divide_list_positive) simp

lemma ex_chunks_900: "\<exists>chunks. divide_list xs 900 = Inr chunks \<and> concat chunks = xs"
  by (rule divide_list_positive) simp


lemma main_try_fetch_fails:
  "get_offer_ids (product_list_api w) = Some (evs1, Inl e) \<Longrightarrow> main_try w = Some (evs1, Some e)"
  by (simp add: main_try_def)

lemma main_try_download_fails:
  "get_offer_ids (product_list_api w) = Some (evs1, Inr ids) \<Longrightarrow>
   download_stock_result w = Inl e \<Longrightarrow>
   main_try w = Some (evs1 @ [DownloadStock], Some e)"
  by (simp add: main_try_def)

lemma main_try_create_stocks_fails:
  "get_offer_ids (product_list_api w) = Some (evs1, Inr ids) \<Longrightarrow>
   download_stock_result w = Inr ws \<Longrightarrow>
   create_stocks ((\<lambda>_. [])(0 := ids)) ws 0 = (h1, Inl e) \<Longrightarrow>
   main_try w = Some (evs1 @ [DownloadStock], Some e)"
  by (simp add: main_try_def)

lemma main_try_update_stocks_fails:
  "get_offer_ids (product_list_api w) = Some (evs1, Inr ids) \<Longrightarrow>
   download_stock_result w = Inr ws \<Longrightarrow>
   create_stocks ((\<lambda>_. [])(0 := ids)) ws 0 = (h1, Inr stocks) \<Longrightarrow>
   divide_list stocks 100 = Inr chunks \<Longrightarrow>
   update_loop (update_stocks_api w) UpdateStocks 0 chunks = (evs2, Some e) \<Longrightarrow>
   main_try w = Some (evs1 @ [DownloadStock] @ evs2, Some e)"
  by (simp add: main_try_def)

lemma main_try_create_prices_fails:
  "get_offer_ids (product_list_api w) = Some (evs1, Inr ids) \<Longrightarrow>
   download_stock_result w = Inr ws \<Longrightarrow>
   create_stocks ((\<lambda>_. [])(0 := ids)) ws 0 = (h1, Inr stocks) \<Longrightarrow>
   divide_list stocks 100 = Inr chunks \<Longrightarrow>
   update_loop (update_stocks_api w) UpdateStocks 0 chunks = (evs2, None) \<Longrightarrow>
   create_prices h1 ws 0 = Inl e \<Longrightarrow>
   main_try w = Some (evs1 @ [DownloadStock] @ evs2, Some e)"
  by (simp add: main_try_def)

lemma main_try_price_phase:
  "get_offer_ids (product_list_api w) = Some (evs1, Inr ids) \<Longrightarrow>
   download_stock_result w = Inr ws \<Longrightarrow>
   create_stocks ((\<lambda>_. [])(0 := ids)) ws 0 = (h1, Inr stocks) \<Longrightarrow>
   divide_list stocks 100 = Inr chunks \<Longrightarrow>
   update_loop (update_stocks_api w) UpdateStocks 0 chunks = (evs2, None) \<Longrightarrow>
   create_prices h1 ws 0 = Inr prices \<Longrightarrow>
   divide_list prices 900 = Inr pchunks \<Longrightarrow>
   update_loop (update_price_api w) UpdatePrice 0 pchunks = (evs3, r) \<Longrightarrow>
   main_try w = Some (evs1 @ [DownloadStock] @ evs2 @ evs3, r)"
  by (simp add: main_try_def)

lemma get_offer_ids_requests:
  "get_offer_ids api = Some (evs, x) \<Longrightarrow> \<exists>n. evs = requests api (Suc n)"
  using get_offer_ids_cases [of api] by auto

lemma main_try_cases [consumes 1, case_names fetch download stocks upload_stocks prices upload_prices]:
  assumes run: "main_try w = Some (evs, r)"
  obtains
    evs1 e where "get_offer_ids (product_list_api w) = Some (evs1, Inl e)"
      "evs = evs1" "r = Some e"
  | evs1 ids e where "get_offer_ids (product_list_api w) = Some (evs1, Inr ids)"
      "download_stock_result w = Inl e"
      "evs = evs1 @ [DownloadStock]" "r = Some e"
  | evs1 ids ws h1 e where "get_offer_ids (product_list_api w) = Some (evs1, Inr ids)"
      "download_stock_result w = Inr ws"
      "create_stocks ((\<lambda>_. [])(0 := ids)) ws 0 = (h1, Inl e)"
      "evs = evs1 @ [DownloadStock]" "r = Some e"
  | evs1 ids ws h1 stocks chunks evs2 e where
      "get_offer_ids (product_list_api w) = Some (evs1, Inr ids)"
      "download_stock_result w = Inr ws"
      "create_stocks ((\<lambda>_. [])(0 := ids)) ws 0 = (h1, Inr stocks)"
      "divide_list stocks 100 = Inr chunks"
      "update_loop (update_stocks_api w) UpdateStocks 0 chunks = (evs2, Some e)"
      "evs = evs1 @ [DownloadStock] @ evs2" "r = Some e"
  | evs1 ids ws h1 stocks chunks evs2 e where
      "get_offer_ids (product_list_api w) = Some (evs1, Inr ids)"
      "download_stock_result w = Inr ws"
      "create_stocks ((\<lambda>_. [])(0 := ids)) ws 0 = (h1, Inr stocks)"
      "divide_list stocks 100 = Inr chunks"
      "update_loop (update_stocks_api w) UpdateStocks 0 chunks = (evs2, None)"
      "create_prices h1 ws 0 = Inl e"
      "evs = evs1 @ [DownloadStock] @ evs2" "r = Some e"
  | evs1 ids ws h1 stocks chunks evs2 prices pchunks evs3 where
      "get_offer_ids (product_list_api w) = Some (evs1, Inr ids)"
      "download_stock_result w = Inr ws"
      "create_stocks ((\<lambda>_. [])(0 := ids)) ws 0 = (h1, Inr stocks)"
      "divide_list stocks 100 = Inr chunks"
      "update_loop (update_stocks_api w) UpdateStocks 0 chunks = (evs2, None)"
      "create_prices h1 ws 0 = Inr prices"
      "divide_list prices 900 = Inr pchunks"
      "update_loop (update_price_api w) UpdatePrice 0 pchunks = (evs3, r)"
      "evs = evs1 @ [DownloadStock] @ evs2 @ evs3"
proof -
  let ?api = "product_list_api w"
  from run obtain evs1 x where g: "get_offer_ids ?api = Some (evs1, x)"
    by (cases "get_offer_ids ?api") (auto simp: main_try_def)
  show thesis
  proof (cases x)
    case (Inl e)
    with g have g': "get_offer_ids ?api = Some (evs1, Inl e)" by simp
    from main_try_fetch_fails [OF g'] run have "evs = evs1" "r = Some e" by simp_all
    with g' that(1) show thesis by blast
  next
    case (Inr ids)
    with g have g': "get_offer_ids ?api = Some (evs1, Inr ids)" by simp
    show thesis
    proof (cases "download_stock_result w")
      case (Inl e)
      from main_try_download_fails [OF g' Inl] run
      have "evs = evs1 @ [DownloadStock]" "r = Some e" by simp_all
      with g' Inl that(2) show thesis by blast
    next
      case ws: (Inr ws)
      obtain h1 sres where cs: "create_stocks ((\<lambda>_. [])(0 := ids)) ws 0 = (h1, sres)"
        by (cases "create_stocks ((\<lambda>_. [])(0 := ids)) ws 0") blast
      show thesis
      proof (cases sres)
        case (Inl e)
        with cs have cs': "create_stocks ((\<lambda>_. [])(0 := ids)) ws 0 = (h1, Inl e)" by simp
        from main_try_create_stocks_fails [OF g' ws this] run
        have "evs = evs1 @ [DownloadStock]" "r = Some e" by simp_all
        with g' ws cs' that(3) show thesis by blast
      next
        case (Inr stocks)
        with cs have cs': "create_stocks ((\<lambda>_. [])(0 := ids)) ws 0 = (h1, Inr stocks)" by simp
        obtain chunks where ch: "divide_list stocks 100 = Inr chunks"
          using ex_chunks_100 by blast
        obtain evs2 r2 where ul: "update_loop (update_stocks_api w) UpdateStocks 0 chunks = (evs2, r2)"
          by (cases "update_loop (update_stocks_api w) UpdateStocks 0 chunks") blast
        show thesis
        proof (cases r2)
          case (Some e)
          with ul have ul': "update_loop (update_stocks_api w) UpdateStocks 0 chunks = (evs2, Some e)"
            by simp
          from main_try_update_stocks_fails [OF g' ws cs' ch this] run
          have "evs = evs1 @ [DownloadStock] @ evs2" "r = Some e" by simp_all
          with g' ws cs' ch ul' that(4) show thesis by blast
        next
          case None
          with ul have ul': "update_loop (update_stocks_api w) UpdateStocks 0 chunks = (evs2, None)"
            by simp
          show thesis
          proof (cases "create_prices h1 ws 0")
            case (Inl e)
            from main_try_create_prices_fails [OF g' ws cs' ch ul' Inl] run
            have "evs = evs1 @ [DownloadStock] @ evs2" "r = Some e" by simp_all
            with g' ws cs' ch ul' Inl that(5) show thesis by blast
          next
            case prices: (Inr prices)
            obtain pchunks where pch: "divide_list prices 900 = Inr pchunks"
              using ex_chunks_900 by blast
            obtain evs3 r3 where pl: "update_loop (update_price_api w) UpdatePrice 0 pchunks = (evs3, r3)"
              by (cases "update_loop (update_price_api w) UpdatePrice 0 pchunks") blast
            from main_try_price_phase [OF g' ws cs' ch ul' prices pch pl] run
            have "evs = evs1 @ [DownloadStock] @ evs2 @ evs3" "r = r3" by simp_all
            with g' ws cs' ch ul' prices pch pl that(6) show thesis by blast
          qed
        qed
      qed
    qed
  qed
qed

lemma shapeI:
  "evs = requests (product_list_api w) (Suc n) @ d @ map UpdateStocks ss \<Longrightarrow>
   d = [] \<or> d = [DownloadStock] \<Longrightarrow>
   \<forall>b \<in> set ss. 1 \<le> length b \<and> length b \<le> 100 \<Longrightarrow>
   trace_shape w evs"
  unfolding trace_shape_def
  by (intro exI [of _ n] exI [of _ d] exI [of _ ss] exI [of _ "[]"]) simp

lemma main_try_shape:
  assumes run: "main_try w = Some (evs, r)"
  shows "trace_shape w evs"
  using run
proof (cases rule: main_try_cases)
  case (fetch evs1 e)
  from get_offer_ids_requests [OF fetch(1)] obtain n
    where "evs1 = requests (product_list_api w) (Suc n)" by blast
  with fetch show ?thesis
    by (intro shapeI [where n = n and d = "[]" and ss = "[]"]) simp_all
next
  case (download evs1 ids e)
  from get_offer_ids_requests [OF download(1)] obtain n
    where "evs1 = requests (product_list_api w) (Suc n)" by blast
  with download show ?thesis
    by (intro shapeI [where n = n and d = "[DownloadStock]" and ss = "[]"]) simp_all
next
  case (stocks evs1 ids ws h1 e)
  from get_offer_ids_requests [OF stocks(1)] obtain n
    where "evs1 = requests (product_list_api w) (Suc n)" by blast
  with stocks show ?thesis
    by (intro shapeI [where n = n and d = "[DownloadStock]" and ss = "[]"]) simp_all
next
  case (upload_stocks evs1 ids ws h1 stocks chunks evs2 e)
  from get_offer_ids_requests [OF upload_stocks(1)] obtain n
    where n: "evs1 = requests (product_list_api w) (Suc n)" by blast
  from update_loop_prefix [OF upload_stocks(5)] obtain m
    where m: "evs2 = map UpdateStocks (take m chunks)" by blast
  note ssb = chunks_100 [OF upload_stocks(4), of m]
  show ?thesis
    by (rule shapeI [where n = n and d = "[DownloadStock]" and ss = "take m chunks"])
       (use ssb in \<open>simp_all add: upload_stocks n m\<close>)
next
  case (prices evs1 ids ws h1 stocks chunks evs2 e)
  from get_offer_ids_requests [OF prices(1)] obtain n
    where n: "evs1 = requests (product_list_api w) (Suc n)" by blast
  from update_loop_prefix [OF prices(5)] obtain m
    where m: "evs2 = map UpdateStocks (take m chunks)" by blast
  note ssb = chunks_100 [OF prices(4), of m]
  show ?thesis
    by (rule shapeI [where n = n and d = "[DownloadStock]" and ss = "take m chunks"])
       (use ssb in \<open>simp_all add: prices n m\<close>)
next
  case (upload_prices evs1 ids ws h1 stocks chunks evs2 prices pchunks evs3)
  from get_offer_ids_requests [OF upload_prices(1)] obtain n
    where n: "evs1 = requests (product_list_api w) (Suc n)" by blast
  from update_loop_prefix [OF upload_prices(5)] obtain m
    where m: "evs2 = map UpdateStocks (take m chunks)" by blast
  from update_loop_prefix [OF upload_prices(8)] obtain m'
    where m': "evs3 = map UpdatePrice (take m' pchunks)" by blast
  note ssb = chunks_100 [OF upload_prices(4), of m]
  note psb = chunks_900 [OF upload_prices(7), of m']
  have sub: "set (take m' pchunks) \<subseteq> set pchunks" by (rule set_take_subset)
  have ev: "evs = requests (product_list_api w) (Suc n) @ [DownloadStock]
      @ map UpdateStocks (take m chunks) @ map UpdatePrice (take m' pchunks)"
    by (simp add: upload_prices(9) n m m')
  show ?thesis
    unfolding trace_shape_def
    using ev ssb psb sub upload_prices(1,2,3,6,7)
    by (intro exI [of _ n] exI [of _ "[DownloadStock]"] exI [of _ "take m chunks"]
          exI [of _ "take m' pchunks"]) blast
qed

lemma shape_sorted: "trace_shape w evs \<Longrightarrow> sorted (map phase (evs @ pr))"
  if "pr = [] \<or> (\<exists>x. pr = [Print x])"
proof -
  assume "trace_shape w evs"
  then obtain n d ss ps where
    "evs = requests (product_list_api w) (Suc n) @ d @ map UpdateStocks ss @ map UpdatePrice ps"
    "d = [] \<or> d = [DownloadStock]"
    unfolding trace_shape_def by blast
  with sorted_phases [OF this(2) that, of "product_list_api w" "Suc n" ss ps]
  show ?thesis by simp
qed

lemma shape_no_print: "trace_shape w evs \<Longrightarrow> Print x \<notin> set evs"
  unfolding trace_shape_def requests_def by auto

lemma shape_stock_batches:
  "trace_shape w evs \<Longrightarrow> UpdateStocks b \<in> set evs \<Longrightarrow> 1 \<le> length b \<and> length b \<le> 100"
  unfolding trace_shape_def requests_def by auto

lemma shape_price_batches:
  "trace_shape w evs \<Longrightarrow> UpdatePrice b \<in> set evs \<Longrightarrow> 1 \<le> length b \<and> length b \<le> 900"
  unfolding trace_shape_def requests_def by auto

lemma shape_one_download:
  assumes "trace_shape w evs"
  shows "count_list evs DownloadStock \<le> 1"
proof -
  from assms obtain n d ss ps where sh:
    "evs = requests (product_list_api w) (Suc n) @ d @ map UpdateStocks ss @ map UpdatePrice ps"
    "d = [] \<or> d = [DownloadStock]"
    unfolding trace_shape_def by blast
  have 1: "count_list (requests (product_list_api w) (Suc n)) DownloadStock = 0"
    unfolding count_list_0_iff requests_def by auto
  have 2: "count_list (map UpdateStocks ss) DownloadStock = 0"
    unfolding count_list_0_iff by auto
  have 3: "count_list (map UpdatePrice ps) DownloadStock = 0"
    unfolding count_list_0_iff by auto
  have 4: "count_list d DownloadStock \<le> 1" using sh(2) by auto
  show ?thesis
    unfolding sh(1) count_list_append 1 2 3 using 4 by simp
qed

lemma divide_list_Nil: "0 < n \<Longrightarrow> divide_list [] n = Inr []"
  by (simp add: divide_list_def divide_from_done)

lemma shape_no_price_update:
  assumes "trace_shape w evs"
    and "get_offer_ids (product_list_api w) = Some (evs1, Inr ids)" and "distinct ids"
  shows "UpdatePrice b \<notin> set evs"
proof -
  from assms(1) obtain n d ss ps where sh:
    "evs = requests (product_list_api w) (Suc n) @ d @ map UpdateStocks ss @ map UpdatePrice ps"
    "d = [] \<or> d = [DownloadStock]"
    "ps \<noteq> [] \<longrightarrow>
            (\<exists>evs1 ids ws h1 stocks prices pchunks.
                get_offer_ids (product_list_api w) = Some (evs1, Inr ids)
              \<and> download_stock_result w = Inr ws
              \<and> create_stocks ((\<lambda>_. [])(0 := ids)) ws 0 = (h1, Inr stocks)
              \<and> create_prices h1 ws 0 = Inr prices
              \<and> divide_list prices 900 = Inr pchunks
              \<and> set ps \<subseteq> set pchunks)"
    unfolding trace_shape_def by blast
  have "ps = []"
  proof (rule ccontr)
    assume "ps \<noteq> []"
    with sh(3) assms(2) obtain ws h1 stocks prices pchunks where
      cs: "create_stocks ((\<lambda>_. [])(0 := ids)) ws 0 = (h1, Inr stocks)"
      and cp: "create_prices h1 ws 0 = Inr prices"
      and dv: "divide_list prices 900 = Inr pchunks" and sub: "set ps \<subseteq> set pchunks"
      by auto
    have "distinct (((\<lambda>_. [])(0 := ids)) 0)" using assms(3) by simp
    from create_prices_after_create_stocks [OF this cs] cp have "prices = []" by simp
    with dv have "pchunks = []" by (simp add: divide_list_Nil)
    with sub \<open>ps \<noteq> []\<close> show False by simp
  qed
  with sh(1,2) show ?thesis by (auto simp: requests_def)
qed

lemma main_no_credentials:
  "\<not> credentials w \<Longrightarrow> main w = Some \<lparr>events = [], raised = Some EnvError\<rparr>"
  by (auto simp: credentials_def main_def split: option.splits)

lemma main_credentials:
  "credentials w \<Longrightarrow>
   main w = (case main_try w of
               None \<Rightarrow> None
             | Some (evs, None) \<Rightarrow> Some \<lparr>events = evs, raised = None\<rparr>
             | Some (evs, Some e) \<Rightarrow> Some \<lparr>events = evs @ [Print (handler e)], raised = None\<rparr>)"
  by (auto simp: credentials_def main_def split: option.splits)

lemma main_Some:
  assumes "credentials w" and "main w = Some run"
  shows "\<exists>evs r. main_try w = Some (evs, r) \<and> raised run = None
           \<and> events run = evs @ (case r of None \<Rightarrow> [] | Some e \<Rightarrow> [Print (handler e)])"
proof (cases "main_try w")
  case None
  with assms show ?thesis by (simp add: main_credentials)
next
  case (Some p)
  obtain evs r where p: "p = (evs, r)" by (cases p) blast
  show ?thesis
  proof (cases r)
    case None
    with Some p assms have "run = \<lparr>events = evs, raised = None\<rparr>"
      by (simp add: main_credentials)
    with Some p None show ?thesis by simp
  next
    case (Some e)
    with \<open>main_try w = Some p\<close> p assms
    have "run = \<lparr>events = evs @ [Print (handler e)], raised = None\<rparr>"
      by (simp add: main_credentials)
    with \<open>main_try w = Some p\<close> p Some show ?thesis by simp
  qed
qed

lemma main_try_None: "main_try w = None \<longleftrightarrow> get_offer_ids (product_list_api w) = None"
  by (auto simp: main_try_def split: option.splits sum.splits)

lemma example_get_offer_ids:
  "get_offer_ids example_api
     = Some ([ListProducts (PyStr []), ListProducts (PyStr ''a'')],
             Inr [PyStr ''123'', PyStr ''124'', PyStr ''126''])"
proof -
  have "\<forall>j<1. goes_on example_api j" using example_api_steps by simp
  from get_offer_ids_reached [OF this example_api_steps(2)] show ?thesis
    by (simp add: requests_def answer_items_def answer_def example_api_def)
qed

lemma twin_get_offer_ids:
  "get_offer_ids twin_api = Some ([ListProducts (PyStr [])], Inr [PyStr ''123'', PyStr ''123''])"
proof -
  have "total_reached twin_api 0"
    by (simp add: total_reached_def answer_items_def answer_def twin_api_def)
  from get_offer_ids_reached [of 0 twin_api, OF _ this] show ?thesis
    by (simp add: requests_def answer_items_def answer_def twin_api_def)
qed

lemmas eval_defs = create_stocks_def create_prices_def stocks_loop.simps prices_loop.simps
  example_remnants_def divide_list_def divide_from.simps is_digit_def re_sub_non_digits_def

lemma main_example_world:
  "main example_world =
     Some \<lparr>events = [ListProducts (PyStr []), ListProducts (PyStr ''a''), DownloadStock,
                      UpdateStocks [\<lparr>s_offer_id = PyStr ''123'', stock = 100\<rparr>,
                                    \<lparr>s_offer_id = PyStr ''124'', stock = 0\<rparr>,
                                    \<lparr>s_offer_id = PyStr ''126'', stock = 0\<rparr>]],
           raised = None\<rparr>"
  by (simp add: main_def main_try_def example_world_def example_get_offer_ids eval_defs)

lemma main_twin_world:
  "main twin_world =
     Some \<lparr>events = [ListProducts (PyStr []), DownloadStock,
                      UpdateStocks [\<lparr>s_offer_id = PyStr ''123'', stock = 100\<rparr>,
                                    \<lparr>s_offer_id = PyStr ''123'', stock = 0\<rparr>],
                      UpdatePrice [\<lparr>auto_action_enabled = ''UNKNOWN'', currency_code = ''RUB'',
                                    p_offer_id = PyStr ''123'', old_price = ''0'', price = ''5000''\<rparr>]],
           raised = None\<rparr>"
  by (simp add: main_def main_try_def twin_world_def example_world_def twin_get_offer_ids eval_defs)

lemma main_offline_world:
  "main offline_world =
     Some \<lparr>events = [ListProducts (PyStr []), ListProducts (PyStr ''a''), DownloadStock,
                      Print (ConnectionNotice ''no route'')],
           raised = None\<rparr>"
  by (simp add: main_def main_try_def offline_world_def example_world_def example_get_offer_ids)

lemma update_loop_ok: "all_ok api bs \<Longrightarrow> update_loop api ev 0 bs = (map ev bs, None)"
  using update_loop_all_ok [of bs api 0 ev] by (simp add: all_ok_def)

lemma update_loop_failure:
  "first_failure api bs i e \<Longrightarrow> update_loop api ev 0 bs = (map ev (take (Suc i) bs), Some e)"
  using update_loop_first_failure [of i bs api 0 e ev] by (simp add: first_failure_def)

text \<open>
  C1. main passes the one list object first to create_stocks and then to create_prices.
  When that list has no duplicate, create_prices on the store that create_stocks leaves
  returns the empty list, whatever the price cells are, and a run of main whose fetched
  SKU list has no duplicate sends no price update at all.
\<close>

theorem main_sends_no_price_update:
  "(distinct (h r) \<and> create_stocks h ws r = (h', Inr out) \<longrightarrow> create_prices h' ws r = Inr [])
   \<and> (main w = Some run \<and> get_offer_ids (product_list_api w) = Some (evs1, Inr ids) \<and> distinct ids
        \<longrightarrow> (\<forall>b. UpdatePrice b \<notin> set (events run)))"
proof (intro conjI impI)
  assume "distinct (h r) \<and> create_stocks h ws r = (h', Inr out)"
  then show "create_prices h' ws r = Inr []"
    using create_prices_after_create_stocks by blast
next
  assume a: "main w = Some run \<and> get_offer_ids (product_list_api w) = Some (evs1, Inr ids) \<and> distinct ids"
  show "\<forall>b. UpdatePrice b \<notin> set (events run)"
  proof (cases "credentials w")
    case False
    with a main_no_credentials [OF False] show ?thesis by auto
  next
    case True
    from main_Some [OF True] a obtain evs r' where
      t: "main_try w = Some (evs, r')"
      and ev: "events run = evs @ (case r' of None \<Rightarrow> [] | Some e \<Rightarrow> [Print (handler e)])"
      by blast
    from shape_no_price_update [OF main_try_shape [OF t]] a
    have "\<forall>b. UpdatePrice b \<notin> set evs" by blast
    with ev show ?thesis by (auto split: option.splits)
  qed
qed

theorem main_sends_no_price_update_witness:
  "distinct [PyStr ''123'', PyStr ''124'', PyStr ''126'']
   \<and> main example_world =
       Some \<lparr>events = [ListProducts (PyStr []), ListProducts (PyStr ''a''), DownloadStock,
                      UpdateStocks [\<lparr>s_offer_id = PyStr ''123'', stock = 100\<rparr>,
                                    \<lparr>s_offer_id = PyStr ''124'', stock = 0\<rparr>,
                                    \<lparr>s_offer_id = PyStr ''126'', stock = 0\<rparr>]],
           raised = None\<rparr>
   \<and> (\<forall>b. UpdatePrice b \<notin> set (events (the (main example_world))))
   \<and> create_prices (fst (create_stocks (store_of [PyStr ''123'', PyStr ''124'', PyStr ''126''])
         example_remnants 0)) example_remnants 0 = Inr []"
proof -
  let ?ids = "[PyStr ''123'', PyStr ''124'', PyStr ''126'']"
  let ?out = "[\<lparr>s_offer_id = PyStr ''123'', stock = 100\<rparr>, \<lparr>s_offer_id = PyStr ''124'', stock = 0\<rparr>,
             \<lparr>s_offer_id = PyStr ''126'', stock = 0\<rparr>]"
  have d: "distinct ?ids" by simp
  have g: "get_offer_ids (product_list_api example_world)
      = Some ([ListProducts (PyStr []), ListProducts (PyStr ''a'')], Inr ?ids)"
    using example_get_offer_ids by (simp add: example_world_def)
  have m: "main example_world = Some (the (main example_world))"
    by (simp add: main_example_world)
  from main_sends_no_price_update
    [of "store_of ?ids" 0 example_remnants "fst (create_stocks (store_of ?ids) example_remnants 0)"
        ?out example_world "the (main example_world)" _ ?ids]
  have 1: "distinct (store_of ?ids 0)
        \<and> create_stocks (store_of ?ids) example_remnants 0
            = (fst (create_stocks (store_of ?ids) example_remnants 0), Inr ?out)
      \<longrightarrow> create_prices (fst (create_stocks (store_of ?ids) example_remnants 0)) example_remnants 0
            = Inr []"
    and 2: "main example_world = Some (the (main example_world))
        \<and> get_offer_ids (product_list_api example_world)
            = Some ([ListProducts (PyStr []), ListProducts (PyStr ''a'')], Inr ?ids)
        \<and> distinct ?ids
      \<longrightarrow> (\<forall>b. UpdatePrice b \<notin> set (events (the (main example_world))))"
    by blast+
  have run: "create_stocks (store_of ?ids) example_remnants 0
      = (fst (create_stocks (store_of ?ids) example_remnants 0), Inr ?out)"
    using example_run by (metis prod.collapse)
  have "distinct (store_of ?ids 0)" by (simp add: store_of_def)
  with 1 run have c: "create_prices (fst (create_stocks (store_of ?ids) example_remnants 0))
      example_remnants 0 = Inr []"
    by blast
  from 2 m g d have "\<forall>b. UpdatePrice b \<notin> set (events (the (main example_world)))" by blast
  with d c main_example_world show ?thesis by blast
qed

text \<open>
  C8. A run without one of the two environment variables raises before anything is done,
  outside the \<^verbatim>\<open>try\<close>. With both, no exception leaves main: whatever the \<^verbatim>\<open>try\<close> block
  raises is answered by one printed line, the timeout notice for a read timeout, the
  connection notice with the details for a connection error, the generic notice for any
  other exception, and then the run ends. Nothing is tried again: the block itself prints
  nothing and downloads at most once, a failed page request or download is the last step
  before the printed line, and main returns whenever get_offer_ids does.
\<close>

theorem main_catches_every_exception:
  "(\<not> credentials w \<longrightarrow> main w = Some \<lparr>events = [], raised = Some EnvError\<rparr>)
   \<and> (credentials w \<and> main w = Some run \<longrightarrow> raised run = None)
   \<and> (credentials w \<and> main_try w = Some (evs, Some e) \<longrightarrow>
        main w = Some \<lparr>events = evs @ [Print (handler e)], raised = None\<rparr>)
   \<and> (credentials w \<and> main_try w = Some (evs, None) \<longrightarrow>
        main w = Some \<lparr>events = evs, raised = None\<rparr>)
   \<and> handler ReadTimeout = TimeoutNotice
   \<and> handler (ConnectionError d) = ConnectionNotice d
   \<and> (e' \<noteq> ReadTimeout \<and> (\<forall>d. e' \<noteq> ConnectionError d) \<longrightarrow> handler e' = GenericNotice e')
   \<and> (main_try w = Some (evs, r) \<longrightarrow>
        (\<forall>x. Print x \<notin> set evs) \<and> count_list evs DownloadStock \<le> 1)
   \<and> (main w = None \<longleftrightarrow> credentials w \<and> get_offer_ids (product_list_api w) = None)
   \<and> (credentials w \<and> get_offer_ids (product_list_api w) = Some (evs1, Inl e) \<longrightarrow>
        main w = Some \<lparr>events = evs1 @ [Print (handler e)], raised = None\<rparr>)
   \<and> (credentials w \<and> get_offer_ids (product_list_api w) = Some (evs1, Inr ids)
        \<and> download_stock_result w = Inl e \<longrightarrow>
        main w = Some \<lparr>events = evs1 @ [DownloadStock, Print (handler e)], raised = None\<rparr>)"
proof -
  have 1: "\<not> credentials w \<longrightarrow> main w = Some \<lparr>events = [], raised = Some EnvError\<rparr>"
    using main_no_credentials by blast
  have 2: "credentials w \<and> main w = Some run \<longrightarrow> raised run = None"
    using main_Some by blast
  have 3: "credentials w \<and> main_try w = Some (evs, Some e) \<longrightarrow>
        main w = Some \<lparr>events = evs @ [Print (handler e)], raised = None\<rparr>"
    by (simp add: main_credentials)
  have 4: "credentials w \<and> main_try w = Some (evs, None) \<longrightarrow>
        main w = Some \<lparr>events = evs, raised = None\<rparr>"
    by (simp add: main_credentials)
  have 5: "handler ReadTimeout = TimeoutNotice" "handler (ConnectionError d) = ConnectionNotice d"
    by simp_all
  have 6: "e' \<noteq> ReadTimeout \<and> (\<forall>d. e' \<noteq> ConnectionError d) \<longrightarrow> handler e' = GenericNotice e'"
    by (cases e') simp_all
  have 7: "main_try w = Some (evs, r) \<longrightarrow>
        (\<forall>x. Print x \<notin> set evs) \<and> count_list evs DownloadStock \<le> 1"
    using main_try_shape shape_no_print shape_one_download by blast
  have 8: "main w = None \<longleftrightarrow> credentials w \<and> get_offer_ids (product_list_api w) = None"
  proof (cases "credentials w")
    case False
    with main_no_credentials [OF False] show ?thesis by simp
  next
    case True
    have "main w = None \<longleftrightarrow> main_try w = None"
      unfolding main_credentials [OF True] by (auto split: option.splits)
    with True show ?thesis by (simp add: main_try_None)
  qed
  have 9: "credentials w \<and> get_offer_ids (product_list_api w) = Some (evs1, Inl e) \<longrightarrow>
        main w = Some \<lparr>events = evs1 @ [Print (handler e)], raised = None\<rparr>"
    by (simp add: main_credentials main_try_fetch_fails)
  have 10: "credentials w \<and> get_offer_ids (product_list_api w) = Some (evs1, Inr ids)
        \<and> download_stock_result w = Inl e \<longrightarrow>
        main w = Some \<lparr>events = evs1 @ [DownloadStock, Print (handler e)], raised = None\<rparr>"
    by (simp add: main_credentials main_try_download_fails)
  from 1 2 3 4 5 6 7 8 9 10 show ?thesis by blast
qed

lemma slow_get_offer_ids:
  "get_offer_ids (\<lambda>k c. Inl ReadTimeout) = Some ([ListProducts (PyStr [])], Inl ReadTimeout)"
proof -
  have "failure_at (\<lambda>k c. Inl ReadTimeout) 0 = Some ReadTimeout"
    by (simp add: failure_at_def answer_def)
  from get_offer_ids_failure [of 0 "\<lambda>k c. Inl ReadTimeout", OF _ this] show ?thesis
    by (simp add: requests_def)
qed

theorem main_catches_every_exception_witness:
  "credentials offline_world
   \<and> main offline_world =
       Some \<lparr>events = [ListProducts (PyStr []), ListProducts (PyStr ''a''), DownloadStock,
                        Print (ConnectionNotice ''no route'')],
             raised = None\<rparr>
   \<and> main slow_world =
       Some \<lparr>events = [ListProducts (PyStr []), Print TimeoutNotice], raised = None\<rparr>
   \<and> \<not> credentials no_token_world
   \<and> main no_token_world = Some \<lparr>events = [], raised = Some EnvError\<rparr>"
proof -
  have c1: "credentials offline_world"
    by (simp add: credentials_def offline_world_def example_world_def)
  have g1: "get_offer_ids (product_list_api offline_world)
      = Some ([ListProducts (PyStr []), ListProducts (PyStr ''a'')],
              Inr [PyStr ''123'', PyStr ''124'', PyStr ''126''])"
    using example_get_offer_ids by (simp add: offline_world_def example_world_def)
  have d1: "download_stock_result offline_world = Inl (ConnectionError ''no route'')"
    by (simp add: offline_world_def)
  from main_catches_every_exception
    [of offline_world _ _ "ConnectionError ''no route''" _ _ _
        "[ListProducts (PyStr []), ListProducts (PyStr ''a'')]"
        "[PyStr ''123'', PyStr ''124'', PyStr ''126'']"] c1 g1 d1
  have m1: "main offline_world =
       Some \<lparr>events = [ListProducts (PyStr []), ListProducts (PyStr ''a'')]
                        @ [DownloadStock, Print (handler (ConnectionError ''no route''))],
             raised = None\<rparr>"
    by blast
  have c2: "credentials slow_world"
    by (simp add: credentials_def slow_world_def example_world_def)
  have g2: "get_offer_ids (product_list_api slow_world)
      = Some ([ListProducts (PyStr [])], Inl ReadTimeout)"
    using slow_get_offer_ids by (simp add: slow_world_def)
  from main_catches_every_exception
    [of slow_world _ _ ReadTimeout _ _ _ "[ListProducts (PyStr [])]"] c2 g2
  have m2: "main slow_world =
       Some \<lparr>events = [ListProducts (PyStr [])] @ [Print (handler ReadTimeout)], raised = None\<rparr>"
    by blast
  have c3: "\<not> credentials no_token_world"
    by (simp add: credentials_def no_token_world_def)
  with main_catches_every_exception [of no_token_world]
  have m3: "main no_token_world = Some \<lparr>events = [], raised = Some EnvError\<rparr>"
    by blast
  from c1 m1 m2 c3 m3 show ?thesis by simp
qed

lemma divide_list_chunks:
  "0 < n \<Longrightarrow> \<exists>chunks. divide_list xs n = Inr chunks \<and> concat chunks = xs
      \<and> (\<forall>c \<in> set chunks. 1 \<le> length c \<and> int (length c) \<le> n)"
proof -
  assume n: "0 < n"
  from divide_list_positive [OF n, of xs] obtain chunks
    where c: "divide_list xs n = Inr chunks" "concat chunks = xs" by blast
  with divide_list_lengths [OF n c(1)] show ?thesis by blast
qed

lemma main_after_stocks:
  assumes c: "credentials w"
    and g: "get_offer_ids (product_list_api w) = Some (evs1, Inr ids)"
    and d: "download_stock_result w = Inr ws"
    and s: "create_stocks ((\<lambda>_. [])(0 := ids)) ws 0 = (h1, Inr stocks)"
    and ch: "divide_list stocks 100 = Inr chunks"
  shows "first_failure (update_stocks_api w) chunks i e \<longrightarrow>
           main w = Some \<lparr>events = evs1 @ [DownloadStock] @ map UpdateStocks (take (Suc i) chunks)
                              @ [Print (handler e)], raised = None\<rparr>"
    and "all_ok (update_stocks_api w) chunks \<and> create_prices h1 ws 0 = Inl e \<longrightarrow>
           main w = Some \<lparr>events = evs1 @ [DownloadStock] @ map UpdateStocks chunks
                              @ [Print (handler e)], raised = None\<rparr>"
    and "all_ok (update_stocks_api w) chunks \<and> create_prices h1 ws 0 = Inr prices
         \<and> divide_list prices 900 = Inr pchunks \<and> first_failure (update_price_api w) pchunks i e \<longrightarrow>
           main w = Some \<lparr>events = evs1 @ [DownloadStock] @ map UpdateStocks chunks
                              @ map UpdatePrice (take (Suc i) pchunks) @ [Print (handler e)],
                         raised = None\<rparr>"
    and "all_ok (update_stocks_api w) chunks \<and> create_prices h1 ws 0 = Inr prices
         \<and> divide_list prices 900 = Inr pchunks \<and> all_ok (update_price_api w) pchunks \<longrightarrow>
           main w = Some \<lparr>events = evs1 @ [DownloadStock] @ map UpdateStocks chunks
                              @ map UpdatePrice pchunks, raised = None\<rparr>"
proof -
  show "first_failure (update_stocks_api w) chunks i e \<longrightarrow>
           main w = Some \<lparr>events = evs1 @ [DownloadStock] @ map UpdateStocks (take (Suc i) chunks)
                              @ [Print (handler e)], raised = None\<rparr>"
  proof
    assume "first_failure (update_stocks_api w) chunks i e"
    from main_try_update_stocks_fails [OF g d s ch update_loop_failure [OF this]]
    show "main w = Some \<lparr>events = evs1 @ [DownloadStock] @ map UpdateStocks (take (Suc i) chunks)
                              @ [Print (handler e)], raised = None\<rparr>"
      by (simp add: main_credentials [OF c])
  qed
  show "all_ok (update_stocks_api w) chunks \<and> create_prices h1 ws 0 = Inl e \<longrightarrow>
           main w = Some \<lparr>events = evs1 @ [DownloadStock] @ map UpdateStocks chunks
                              @ [Print (handler e)], raised = None\<rparr>"
  proof
    assume a: "all_ok (update_stocks_api w) chunks \<and> create_prices h1 ws 0 = Inl e"
    then have u: "update_loop (update_stocks_api w) UpdateStocks 0 chunks = (map UpdateStocks chunks, None)"
      by (simp add: update_loop_ok)
    from a have p: "create_prices h1 ws 0 = Inl e" by simp
    from main_try_create_prices_fails [OF g d s ch u p]
    show "main w = Some \<lparr>events = evs1 @ [DownloadStock] @ map UpdateStocks chunks
                              @ [Print (handler e)], raised = None\<rparr>"
      by (simp add: main_credentials [OF c])
  qed
  show "all_ok (update_stocks_api w) chunks \<and> create_prices h1 ws 0 = Inr prices
         \<and> divide_list prices 900 = Inr pchunks \<and> first_failure (update_price_api w) pchunks i e \<longrightarrow>
           main w = Some \<lparr>events = evs1 @ [DownloadStock] @ map UpdateStocks chunks
                              @ map UpdatePrice (take (Suc i) pchunks) @ [Print (handler e)],
                         raised = None\<rparr>"
  proof
    assume a: "all_ok (update_stocks_api w) chunks \<and> create_prices h1 ws 0 = Inr prices
         \<and> divide_list prices 900 = Inr pchunks \<and> first_failure (update_price_api w) pchunks i e"
    then have u: "update_loop (update_stocks_api w) UpdateStocks 0 chunks = (map UpdateStocks chunks, None)"
      by (simp add: update_loop_ok)
    from a have p: "create_prices h1 ws 0 = Inr prices" and pc: "divide_list prices 900 = Inr pchunks"
      and f: "first_failure (update_price_api w) pchunks i e" by simp_all
    from main_try_price_phase [OF g d s ch u p pc update_loop_failure [OF f]]
    show "main w = Some \<lparr>events = evs1 @ [DownloadStock] @ map UpdateStocks chunks
                              @ map UpdatePrice (take (Suc i) pchunks) @ [Print (handler e)],
                         raised = None\<rparr>"
      by (simp add: main_credentials [OF c])
  qed
  show "all_ok (update_stocks_api w) chunks \<and> create_prices h1 ws 0 = Inr prices
         \<and> divide_list prices 900 = Inr pchunks \<and> all_ok (update_price_api w) pchunks \<longrightarrow>
           main w = Some \<lparr>events = evs1 @ [DownloadStock] @ map UpdateStocks chunks
                              @ map UpdatePrice pchunks, raised = None\<rparr>"
  proof
    assume a: "all_ok (update_stocks_api w) chunks \<and> create_prices h1 ws 0 = Inr prices
         \<and> divide_list prices 900 = Inr pchunks \<and> all_ok (update_price_api w) pchunks"
    then have u: "update_loop (update_stocks_api w) UpdateStocks 0 chunks = (map UpdateStocks chunks, None)"
      by (simp add: update_loop_ok)
    from a have p: "create_prices h1 ws 0 = Inr prices" and pc: "divide_list prices 900 = Inr pchunks"
      and f: "all_ok (update_price_api w) pchunks" by simp_all
    from main_try_price_phase [OF g d s ch u p pc update_loop_ok [OF f]]
    show "main w = Some \<lparr>events = evs1 @ [DownloadStock] @ map UpdateStocks chunks
                              @ map UpdatePrice pchunks, raised = None\<rparr>"
      by (simp add: main_credentials [OF c])
  qed
qed

lemma upload_prices_all_ok:
  "get_offer_ids (product_list_api w) = Some (evs1, Inr ids) \<Longrightarrow>
   create_prices ((\<lambda>_. [])(0 := ids)) ws 0 = Inr prices \<Longrightarrow>
   divide_list prices 1000 = Inr pchunks \<Longrightarrow>
   all_ok (update_price_api w) pchunks \<Longrightarrow>
   upload_prices w ws = Some (evs1 @ map UpdatePrice pchunks, Inr prices)"
  by (simp add: upload_prices_def update_loop_ok)

lemma main_run_shape:
  assumes "credentials w" and "main w = Some run"
  shows "sorted (map phase (events run))"
    and "UpdateStocks b \<in> set (events run) \<longrightarrow> 1 \<le> length b \<and> length b \<le> 100"
    and "UpdatePrice b' \<in> set (events run) \<longrightarrow> 1 \<le> length b' \<and> length b' \<le> 900"
proof -
  from main_Some [OF assms] obtain evs r where
    t: "main_try w = Some (evs, r)"
    and ev: "events run = evs @ (case r of None \<Rightarrow> [] | Some e \<Rightarrow> [Print (handler e)])"
    by blast
  note sh = main_try_shape [OF t]
  have pr: "(case r of None \<Rightarrow> [] | Some e \<Rightarrow> [Print (handler e)]) = []
      \<or> (\<exists>x. (case r of None \<Rightarrow> [] | Some e \<Rightarrow> [Print (handler e)]) = [Print x])"
    by (cases r) simp_all
  from shape_sorted [OF pr sh] ev show "sorted (map phase (events run))" by simp
  show "UpdateStocks b \<in> set (events run) \<longrightarrow> 1 \<le> length b \<and> length b \<le> 100"
    using shape_stock_batches [OF sh, of b] ev by (cases r) auto
  show "UpdatePrice b' \<in> set (events run) \<longrightarrow> 1 \<le> length b' \<and> length b' \<le> 900"
    using shape_price_batches [OF sh, of b'] ev by (cases r) auto
qed

text \<open>
  C9, amended. The run fetches the SKU list first and the remnants second (the specification
  has them the other way round), then computes the stocks, uploads them in batches of at most
  100, computes the prices and uploads them in batches of at most 900; upload_prices cuts
  its batches at 1000. The events of every finished run are in this order. A step that
  raises is followed by the printed line only: a failed page request, download or stock
  computation leaves out everything after it, a failed upload of batch \<open>i\<close> leaves out the
  batches after \<open>i\<close> and the later steps, and a run without any failure sends every batch
  once.
\<close>

theorem main_steps_in_order:
  "(credentials w \<and> main w = Some run \<longrightarrow>
      sorted (map phase (events run))
      \<and> (\<forall>b. UpdateStocks b \<in> set (events run) \<longrightarrow> 1 \<le> length b \<and> length b \<le> 100)
      \<and> (\<forall>b. UpdatePrice b \<in> set (events run) \<longrightarrow> 1 \<le> length b \<and> length b \<le> 900))
   \<and> (credentials w \<and> get_offer_ids (product_list_api w) = Some (evs1, Inl e) \<longrightarrow>
        main w = Some \<lparr>events = evs1 @ [Print (handler e)], raised = None\<rparr>)
   \<and> (credentials w \<and> get_offer_ids (product_list_api w) = Some (evs1, Inr ids)
        \<and> download_stock_result w = Inl e \<longrightarrow>
        main w = Some \<lparr>events = evs1 @ [DownloadStock, Print (handler e)], raised = None\<rparr>)
   \<and> (credentials w \<and> get_offer_ids (product_list_api w) = Some (evs1, Inr ids)
        \<and> download_stock_result w = Inr ws
        \<and> create_stocks ((\<lambda>_. [])(0 := ids)) ws 0 = (h1, Inl e) \<longrightarrow>
        main w = Some \<lparr>events = evs1 @ [DownloadStock, Print (handler e)], raised = None\<rparr>)
   \<and> (credentials w \<and> get_offer_ids (product_list_api w) = Some (evs1, Inr ids)
        \<and> download_stock_result w = Inr ws
        \<and> create_stocks ((\<lambda>_. [])(0 := ids)) ws 0 = (h1, Inr stocks) \<longrightarrow>
        (\<exists>chunks. divide_list stocks 100 = Inr chunks \<and> concat chunks = stocks
           \<and> (first_failure (update_stocks_api w) chunks i e \<longrightarrow>
                main w = Some \<lparr>events = evs1 @ [DownloadStock]
                                   @ map UpdateStocks (take (Suc i) chunks) @ [Print (handler e)],
                              raised = None\<rparr>)
           \<and> (all_ok (update_stocks_api w) chunks \<and> create_prices h1 ws 0 = Inl e \<longrightarrow>
                main w = Some \<lparr>events = evs1 @ [DownloadStock] @ map UpdateStocks chunks
                                   @ [Print (handler e)],
                              raised = None\<rparr>)
           \<and> (all_ok (update_stocks_api w) chunks \<and> create_prices h1 ws 0 = Inr prices \<longrightarrow>
                (\<exists>pchunks. divide_list prices 900 = Inr pchunks \<and> concat pchunks = prices
                   \<and> (first_failure (update_price_api w) pchunks i e \<longrightarrow>
                        main w = Some \<lparr>events = evs1 @ [DownloadStock] @ map UpdateStocks chunks
                                           @ map UpdatePrice (take (Suc i) pchunks)
                                           @ [Print (handler e)],
                                      raised = None\<rparr>)
                   \<and> (all_ok (update_price_api w) pchunks \<longrightarrow>
                        main w = Some \<lparr>events = evs1 @ [DownloadStock] @ map UpdateStocks chunks
                                           @ map UpdatePrice pchunks,
                                      raised = None\<rparr>)))))
   \<and> (get_offer_ids (product_list_api w) = Some (evs1, Inr ids)
        \<and> create_prices ((\<lambda>_. [])(0 := ids)) ws' 0 = Inr prices' \<longrightarrow>
        (\<exists>pchunks. divide_list prices' 1000 = Inr pchunks \<and> concat pchunks = prices'
           \<and> (\<forall>c \<in> set pchunks. 1 \<le> length c \<and> length c \<le> 1000)
           \<and> (all_ok (update_price_api w) pchunks \<longrightarrow>
                upload_prices w ws' = Some (evs1 @ map UpdatePrice pchunks, Inr prices'))))"
proof -
  have 1: "credentials w \<and> main w = Some run \<longrightarrow>
      sorted (map phase (events run))
      \<and> (\<forall>b. UpdateStocks b \<in> set (events run) \<longrightarrow> 1 \<le> length b \<and> length b \<le> 100)
      \<and> (\<forall>b. UpdatePrice b \<in> set (events run) \<longrightarrow> 1 \<le> length b \<and> length b \<le> 900)"
    using main_run_shape by blast
  have 2: "credentials w \<and> get_offer_ids (product_list_api w) = Some (evs1, Inl e) \<longrightarrow>
        main w = Some \<lparr>events = evs1 @ [Print (handler e)], raised = None\<rparr>"
    by (simp add: main_credentials main_try_fetch_fails)
  have 3: "credentials w \<and> get_offer_ids (product_list_api w) = Some (evs1, Inr ids)
        \<and> download_stock_result w = Inl e \<longrightarrow>
        main w = Some \<lparr>events = evs1 @ [DownloadStock, Print (handler e)], raised = None\<rparr>"
    by (simp add: main_credentials main_try_download_fails)
  have 4: "credentials w \<and> get_offer_ids (product_list_api w) = Some (evs1, Inr ids)
        \<and> download_stock_result w = Inr ws
        \<and> create_stocks ((\<lambda>_. [])(0 := ids)) ws 0 = (h1, Inl e) \<longrightarrow>
        main w = Some \<lparr>events = evs1 @ [DownloadStock, Print (handler e)], raised = None\<rparr>"
  proof
    assume a: "credentials w \<and> get_offer_ids (product_list_api w) = Some (evs1, Inr ids)
        \<and> download_stock_result w = Inr ws
        \<and> create_stocks ((\<lambda>_. [])(0 := ids)) ws 0 = (h1, Inl e)"
    then have "main_try w = Some (evs1 @ [DownloadStock], Some e)"
      using main_try_create_stocks_fails by blast
    with a show "main w = Some \<lparr>events = evs1 @ [DownloadStock, Print (handler e)], raised = None\<rparr>"
      by (simp add: main_credentials)
  qed
  have 5: "\<exists>chunks. divide_list stocks 100 = Inr chunks \<and> concat chunks = stocks
           \<and> (first_failure (update_stocks_api w) chunks i e \<longrightarrow>
                main w = Some \<lparr>events = evs1 @ [DownloadStock]
                                   @ map UpdateStocks (take (Suc i) chunks) @ [Print (handler e)],
                              raised = None\<rparr>)
           \<and> (all_ok (update_stocks_api w) chunks \<and> create_prices h1 ws 0 = Inl e \<longrightarrow>
                main w = Some \<lparr>events = evs1 @ [DownloadStock] @ map UpdateStocks chunks
                                   @ [Print (handler e)],
                              raised = None\<rparr>)
           \<and> (all_ok (update_stocks_api w) chunks \<and> create_prices h1 ws 0 = Inr prices \<longrightarrow>
                (\<exists>pchunks. divide_list prices 900 = Inr pchunks \<and> concat pchunks = prices
                   \<and> (first_failure (update_price_api w) pchunks i e \<longrightarrow>
                        main w = Some \<lparr>events = evs1 @ [DownloadStock] @ map UpdateStocks chunks
                                           @ map UpdatePrice (take (Suc i) pchunks)
                                           @ [Print (handler e)],
                                      raised = None\<rparr>)
                   \<and> (all_ok (update_price_api w) pchunks \<longrightarrow>
                        main w = Some \<lparr>events = evs1 @ [DownloadStock] @ map UpdateStocks chunks
                                           @ map UpdatePrice pchunks,
                                      raised = None\<rparr>)))"
    if a: "credentials w \<and> get_offer_ids (product_list_api w) = Some (evs1, Inr ids)
        \<and> download_stock_result w = Inr ws
        \<and> create_stocks ((\<lambda>_. [])(0 := ids)) ws 0 = (h1, Inr stocks)"
  proof -
    from a have c: "credentials w"
      and g: "get_offer_ids (product_list_api w) = Some (evs1, Inr ids)"
      and d: "download_stock_result w = Inr ws"
      and s: "create_stocks ((\<lambda>_. [])(0 := ids)) ws 0 = (h1, Inr stocks)"
      by simp_all
    obtain chunks where ch: "divide_list stocks 100 = Inr chunks" "concat chunks = stocks"
      using ex_chunks_100 by blast
    obtain pchunks where pch: "divide_list prices 900 = Inr pchunks" "concat pchunks = prices"
      using ex_chunks_900 by blast
    note m = main_after_stocks [OF c g d s ch(1)]
    from ch pch m(1) [of i e] m(2) [of e] m(3) [of prices pchunks i e] m(4) [of prices pchunks]
    show ?thesis by blast
  qed
  have 6: "\<exists>pchunks. divide_list prices' 1000 = Inr pchunks \<and> concat pchunks = prices'
           \<and> (\<forall>c \<in> set pchunks. 1 \<le> length c \<and> length c \<le> 1000)
           \<and> (all_ok (update_price_api w) pchunks \<longrightarrow>
                upload_prices w ws' = Some (evs1 @ map UpdatePrice pchunks, Inr prices'))"
    if a: "get_offer_ids (product_list_api w) = Some (evs1, Inr ids)
        \<and> create_prices ((\<lambda>_. [])(0 := ids)) ws' 0 = Inr prices'"
  proof -
    from divide_list_chunks [of 1000 prices'] obtain pchunks where
      p: "divide_list prices' 1000 = Inr pchunks" "concat pchunks = prices'"
        "\<forall>c \<in> set pchunks. 1 \<le> length c \<and> int (length c) \<le> 1000"
      by auto
    from p(3) have "\<forall>c \<in> set pchunks. 1 \<le> length c \<and> length c \<le> 1000" by auto
    with p(1,2) upload_prices_all_ok [of w evs1 ids ws' prices' pchunks] a
    show ?thesis by blast
  qed
  from 1 2 3 4 5 6 show ?thesis by blast
qed

lemma all_ok_always: "all_ok (\<lambda>k b. None) bs"
  by (simp add: all_ok_def)

theorem main_steps_in_order_witness:
  "credentials twin_world
   \<and> main twin_world =
       Some \<lparr>events = [ListProducts (PyStr []), DownloadStock,
                      UpdateStocks [\<lparr>s_offer_id = PyStr ''123'', stock = 100\<rparr>,
                                    \<lparr>s_offer_id = PyStr ''123'', stock = 0\<rparr>],
                      UpdatePrice [\<lparr>auto_action_enabled = ''UNKNOWN'', currency_code = ''RUB'',
                                    p_offer_id = PyStr ''123'', old_price = ''0'', price = ''5000''\<rparr>]],
           raised = None\<rparr>
   \<and> sorted (map phase (events (the (main twin_world))))
   \<and> (\<exists>chunks pchunks.
         main twin_world =
           Some \<lparr>events = [ListProducts (PyStr [])] @ [DownloadStock] @ map UpdateStocks chunks
                              @ map UpdatePrice pchunks,
                 raised = None\<rparr>)
   \<and> main offline_world =
       Some \<lparr>events = [ListProducts (PyStr []), ListProducts (PyStr ''a''), DownloadStock,
                        Print (ConnectionNotice ''no route'')],
             raised = None\<rparr>"
proof -
  let ?ids = "[PyStr ''123'', PyStr ''123'']"
  let ?h = "(\<lambda>_. [])(0 := ?ids)"
  let ?S = "[\<lparr>s_offer_id = PyStr ''123'', stock = 100\<rparr>, \<lparr>s_offer_id = PyStr ''123'', stock = 0\<rparr>]"
  let ?P = "[\<lparr>auto_action_enabled = ''UNKNOWN'', currency_code = ''RUB'',
              p_offer_id = PyStr ''123'', old_price = ''0'', price = ''5000''\<rparr>]"
  let ?h1 = "fst (create_stocks ?h example_remnants 0)"
  have c: "credentials twin_world"
    by (simp add: credentials_def twin_world_def example_world_def)
  have m: "main twin_world = Some (the (main twin_world))"
    by (simp add: main_twin_world)
  have g: "get_offer_ids (product_list_api twin_world) = Some ([ListProducts (PyStr [])], Inr ?ids)"
    using twin_get_offer_ids by (simp add: twin_world_def)
  have d: "download_stock_result twin_world = Inr example_remnants"
    by (simp add: twin_world_def example_world_def)
  have "snd (create_stocks ?h example_remnants 0) = Inr ?S"
    by (simp add: eval_defs)
  then have s: "create_stocks ?h example_remnants 0 = (?h1, Inr ?S)"
    by (metis prod.collapse)
  have p: "create_prices ?h1 example_remnants 0 = Inr ?P"
    by (simp add: eval_defs)
  have ok1: "all_ok (update_stocks_api twin_world) bs" for bs
    by (simp add: twin_world_def example_world_def all_ok_always)
  have ok2: "all_ok (update_price_api twin_world) bs" for bs
    by (simp add: twin_world_def example_world_def all_ok_always)
  note inst = main_steps_in_order
    [of twin_world "the (main twin_world)" "[ListProducts (PyStr [])]" _ ?ids example_remnants
        ?h1 ?S _ ?P]
  note inst1 = inst [THEN conjunct1]
  note inst5 = inst [THEN conjunct2, THEN conjunct2, THEN conjunct2, THEN conjunct2, THEN conjunct1]
  from inst1 c m have 1: "sorted (map phase (events (the (main twin_world))))"
    by simp
  from inst5 c g d s obtain chunks where
    "all_ok (update_stocks_api twin_world) chunks \<and> create_prices ?h1 example_remnants 0 = Inr ?P \<longrightarrow>
       (\<exists>pchunks. divide_list ?P 900 = Inr pchunks \<and> concat pchunks = ?P
           \<and> (all_ok (update_price_api twin_world) pchunks \<longrightarrow>
                main twin_world =
                  Some \<lparr>events = [ListProducts (PyStr [])] @ [DownloadStock] @ map UpdateStocks chunks
                                     @ map UpdatePrice pchunks,
                        raised = None\<rparr>))"
    by blast
  with ok1 ok2 p have 2: "\<exists>chunks pchunks.
         main twin_world =
           Some \<lparr>events = [ListProducts (PyStr [])] @ [DownloadStock] @ map UpdateStocks chunks
                              @ map UpdatePrice pchunks,
                 raised = None\<rparr>"
    by blast
  from c main_twin_world 1 2 main_offline_world show ?thesis by blast
qed

text \<open>
  The order as the specification states it fails on the run where every step succeeds: its events
  begin with the two page requests, and the download comes third. And when the first page
  request times out, the run ends without any download.
\<close>

theorem claimed_step_order_counterexample:
  "main example_world =
     Some \<lparr>events = [ListProducts (PyStr []), ListProducts (PyStr ''a''), DownloadStock,
                      UpdateStocks [\<lparr>s_offer_id = PyStr ''123'', stock = 100\<rparr>,
                                    \<lparr>s_offer_id = PyStr ''124'', stock = 0\<rparr>,
                                    \<lparr>s_offer_id = PyStr ''126'', stock = 0\<rparr>]],
           raised = None\<rparr>
   \<and> \<not> sorted (map spec_phase
          [ListProducts (PyStr []), ListProducts (PyStr ''a''), DownloadStock,
           UpdateStocks [\<lparr>s_offer_id = PyStr ''123'', stock = 100\<rparr>,
                         \<lparr>s_offer_id = PyStr ''124'', stock = 0\<rparr>,
                         \<lparr>s_offer_id = PyStr ''126'', stock = 0\<rparr>]])
   \<and> main slow_world =
       Some \<lparr>events = [ListProducts (PyStr []), Print TimeoutNotice], raised = None\<rparr>
   \<and> DownloadStock \<notin> set [ListProducts (PyStr []), Print TimeoutNotice]"
proof -
  have "main slow_world =
       Some \<lparr>events = [ListProducts (PyStr []), Print TimeoutNotice], raised = None\<rparr>"
    by (simp add: main_def main_try_def slow_world_def example_world_def slow_get_offer_ids)
  with main_example_world show ?thesis by simp
qed

end
